theory Spec2Isabelle
  imports Complex_Main "HOL-Library.Sublist"
begin

section \<open>Python values used by the program\<close>

text \<open>
  A Python \<open>str\<close> is a \<open>string\<close>: a list of characters with code points below 256.
  An exception is represented by its message \<open>str(e)\<close>, the only thing the program
  ever reads from one; a computation that may raise has type \<open>exn + 'a\<close>, with
  \<open>Inl\<close> for the raised exception.
\<close>

type_synonym exn = string

definition and_then :: "exn + 'a \<Rightarrow> ('a \<Rightarrow> exn + 'b) \<Rightarrow> exn + 'b" where
  "and_then r f = (case r of Inl e \<Rightarrow> Inl e | Inr x \<Rightarrow> f x)"

subsection \<open>Text operations\<close>

text \<open>\<open>str.isspace\<close> of one character, for the code points below 256.\<close>

definition isspace :: "char \<Rightarrow> bool" where
  "isspace c = ((of_char c :: nat) \<in> {9, 10, 11, 12, 13, 28, 29, 30, 31, 32, 133, 160})"

text \<open>\<open>s.strip()\<close>: whitespace removed at both ends.\<close>

definition strip :: "string \<Rightarrow> string" where
  "strip s = rev (dropWhile isspace (rev (dropWhile isspace s)))"

text \<open>\<open>sub in s\<close>: \<open>sub\<close> occurs in \<open>s\<close> as a contiguous run.\<close>

fun contains :: "string \<Rightarrow> string \<Rightarrow> bool" where
  "contains sub [] = (sub = [])"
| "contains sub (c # cs) = (prefix sub (c # cs) \<or> contains sub cs)"

text \<open>
  The first occurrence of \<open>sep\<close> in \<open>s\<close>: the text before it and the text after it,
  or \<open>None\<close> when \<open>sep\<close> does not occur.
\<close>

fun partition_first :: "string \<Rightarrow> string \<Rightarrow> (string \<times> string) option" where
  "partition_first sep [] = (if sep = [] then Some ([], []) else None)"
| "partition_first sep (c # cs) =
     (if prefix sep (c # cs) then Some ([], drop (length sep) (c # cs))
      else (case partition_first sep cs of
              None \<Rightarrow> None
            | Some (before, after) \<Rightarrow> Some (c # before, after)))"

lemma partition_first_Some:
  "partition_first sep s = Some (before, after) \<Longrightarrow> s = before @ sep @ after"
proof (induction s arbitrary: before)
  case Nil
  then show ?case by (simp split: if_splits)
next
  case (Cons c cs)
  show ?case
  proof (cases "prefix sep (c # cs)")
    case True
    with Cons.prems have "before = []" and "after = drop (length sep) (c # cs)"
      by simp_all
    moreover from True have "c # cs = sep @ drop (length sep) (c # cs)"
      by (metis append_eq_conv_conj prefixE)
    ultimately show ?thesis by simp
  next
    case False
    with Cons.prems obtain b' where b': "partition_first sep cs = Some (b', after)"
      and before: "before = c # b'"
      by (auto split: option.splits)
    from Cons.IH [OF b'] before show ?thesis by simp
  qed
qed

text \<open>
  The parts of \<open>s.split(sep)\<close> for a non-empty separator: \<open>s\<close> is cut at every
  occurrence of \<open>sep\<close>, scanning from the left.
\<close>

function split_parts :: "string \<Rightarrow> string \<Rightarrow> string list" where
  "split_parts sep s =
     (if sep = [] then [s]
      else (case partition_first sep s of
              None \<Rightarrow> [s]
            | Some (before, after) \<Rightarrow> before # split_parts sep after))"
  by pat_completeness auto
termination
proof (relation "measure (\<lambda>(sep, s). length s)")
  show "wf (measure (\<lambda>(sep, s). length s))" by simp
next
  fix sep s :: string and x2 before after
  assume "sep \<noteq> []" and "partition_first sep s = Some x2" and "(before, after) = x2"
  then have "s = before @ sep @ after"
    by (simp add: partition_first_Some)
  with \<open>sep \<noteq> []\<close> have "length after < length s"
    by (cases sep) simp_all
  then show "((sep, after), (sep, s)) \<in> measure (\<lambda>(sep, s). length s)" by simp
qed

declare split_parts.simps [simp del]

text \<open>\<open>s.split(sep)\<close>: an empty separator raises \<open>ValueError\<close>.\<close>

definition split :: "string \<Rightarrow> string \<Rightarrow> exn + string list" where
  "split sep s = (if sep = [] then Inl ''empty separator'' else Inr (split_parts sep s))"

text \<open>\<open>xs[i]\<close> for \<open>i \<ge> 0\<close>: out of range raises \<open>IndexError\<close>.\<close>

definition item :: "'a list \<Rightarrow> nat \<Rightarrow> exn + 'a" where
  "item xs i = (if i < length xs then Inr (xs ! i) else Inl ''list index out of range'')"

subsection \<open>Decoded JSON\<close>

text \<open>
  What \<open>json.loads\<close> returns: \<open>None\<close>, a \<open>bool\<close>, an \<open>int\<close>, a \<open>float\<close>
  (kept as its literal: the program never computes with one), a \<open>str\<close>, a \<open>list\<close>
  or a \<open>dict\<close> (its items, each key once; \<open>map_of\<close> looks a key up).
\<close>

datatype json =
  JNull | JBool bool | JInt int | JFloat string | JStr string
  | JArr "json list" | JObj "(string \<times> json) list"

fun type_name :: "json \<Rightarrow> string" where
  "type_name JNull = ''NoneType''"
| "type_name (JBool b) = ''bool''"
| "type_name (JInt i) = ''int''"
| "type_name (JFloat f) = ''float''"
| "type_name (JStr s) = ''str''"
| "type_name (JArr xs) = ''list''"
| "type_name (JObj kvs) = ''dict''"

text \<open>The message of the \<open>AttributeError\<close> for a missing method.\<close>

definition no_attribute :: "json \<Rightarrow> string \<Rightarrow> exn" where
  "no_attribute v name =
     [CHR 0x27] @ type_name v @ [CHR 0x27] @ '' object has no attribute ''
       @ [CHR 0x27] @ name @ [CHR 0x27]"

text \<open>\<open>result.get(key, default)\<close>: only a \<open>dict\<close> has the method.\<close>

definition get :: "json \<Rightarrow> string \<Rightarrow> json \<Rightarrow> exn + json" where
  "get result key dflt =
     (case result of
        JObj kvs \<Rightarrow> Inr (case map_of kvs key of Some v \<Rightarrow> v | None \<Rightarrow> dflt)
      | _ \<Rightarrow> Inl (no_attribute result ''get''))"

text \<open>\<open>value.strip()\<close> on a decoded value: only a \<open>str\<close> has the method.\<close>

definition value_strip :: "json \<Rightarrow> exn + string" where
  "value_strip v = (case v of JStr s \<Rightarrow> Inr (strip s) | _ \<Rightarrow> Inl (no_attribute v ''strip''))"

section \<open>The world outside the program\<close>

text \<open>
  A prompt is one of the program's three fixed templates together with the values
  interpolated into it; the schema description is part of the first two templates.
\<close>

datatype prompt =
  SqlPrompt string
  | ReviewPrompt string string
  | SummaryPrompt string

text \<open>
  What a run does to the outside, in order: a completion request (the time it is
  issued, the model, the prompt), \<open>time.sleep\<close>, a call of the Executor with its SQL,
  a call of the Corrector with the SQL and the error it is given, and a file written.
\<close>

datatype event =
  Completion real string prompt
  | Sleep real
  | Executor string
  | Corrector string "string option"
  | FileWritten string

record data_frame =
  columns :: "string list"
  rows :: "string list list"

text \<open>The dictionary that \<open>generate_eda_report\<close> returns, as far as the workflow reads it.\<close>

record analysis =
  insights :: "string list"
  visualization_files :: "string list"
  tableau_files :: "string list"

text \<open>
  What connecting to the database or reading from it may raise: an exception of a
  class derived from \<open>Exception\<close>, or one derived from \<open>BaseException\<close> only
  (\<open>KeyboardInterrupt\<close>, \<open>SystemExit\<close>), each with its message.
\<close>

datatype raised = Exception exn | BaseException exn

text \<open>
  The external collaborators. Each answer may depend on everything that happened
  before (the trace). \<open>generate_content\<close> is the completion service: it returns
  \<open>response.text\<close> or raises. \<open>loads\<close> is \<open>json.loads\<close>. \<open>read_sql\<close> is the
  database, reached through \<open>engine.connect\<close> and \<open>pd.read_sql\<close>. \<open>latency\<close> is how
  long a completion request takes and \<open>oversleep\<close> how much longer than asked
  \<open>time.sleep\<close> sleeps. \<open>strftime_now\<close> is the formatted \<open>datetime.now()\<close>.
  \<open>open_error\<close> says for which paths creating the directory or opening the file
  for writing raises, and \<open>write_error\<close> for which texts \<open>f.write\<close> to an open file
  raises (the device, or the encoding the file was opened with). The last three
  are the reporting sink: the files the exploratory analysis writes (each named by
  what follows the analysis name) with its outcome, the construction of the summary
  prompt and the rendering of the report.
\<close>

record env =
  generate_content :: "event list \<Rightarrow> string \<Rightarrow> prompt \<Rightarrow> exn + string"
  loads :: "string \<Rightarrow> exn + json"
  read_sql :: "event list \<Rightarrow> string \<Rightarrow> raised + data_frame"
  latency :: "event list \<Rightarrow> real"
  oversleep :: real
  strftime_now :: string
  open_error :: "string \<Rightarrow> exn option"
  write_error :: "string \<Rightarrow> string \<Rightarrow> exn option"
  eda :: "data_frame \<Rightarrow> string \<Rightarrow> string \<Rightarrow> (string \<times> string) list \<times> (exn + analysis)"
  summary_prompt :: "string \<Rightarrow> data_frame \<Rightarrow> analysis \<Rightarrow> exn + string"
  detailed_report :: "string \<Rightarrow> string \<Rightarrow> data_frame \<Rightarrow> analysis \<Rightarrow> string \<Rightarrow> exn + string"

text \<open>
  The state a run reads and changes: the clock (\<open>time.time()\<close>), the
  \<open>last_request_time\<close> of the workflow's QueryGenerator and of its SummaryGenerator,
  the files, and the trace of what has been done, oldest first.
\<close>

record world =
  clock :: real
  qg_last_request_time :: real
  sg_last_request_time :: real
  files :: "string \<rightharpoonup> string"
  trace :: "event list"

definition record_event :: "event \<Rightarrow> world \<Rightarrow> world" where
  "record_event e w = w\<lparr>trace := trace w @ [e]\<rparr>"

text \<open>\<open>time.sleep(secs)\<close> returns after at least \<open>secs\<close>.\<close>

definition sleep :: "env \<Rightarrow> real \<Rightarrow> world \<Rightarrow> world" where
  "sleep env secs w = (record_event (Sleep secs) w)\<lparr>clock := clock w + secs + oversleep env\<rparr>"

text \<open>\<open>self.client.models.generate_content(model=..., contents=...)\<close> followed by \<open>.text\<close>.\<close>

definition models_generate_content ::
  "env \<Rightarrow> string \<Rightarrow> prompt \<Rightarrow> world \<Rightarrow> (exn + string) \<times> world" where
  "models_generate_content env model contents w =
     (generate_content env (trace w) model contents,
      (record_event (Completion (clock w) model contents) w)\<lparr>clock := clock w + latency env (trace w)\<rparr>)"

text \<open>
  The calls of \<open>f.write\<close> in a \<open>with open(path, 'w') as f\<close> block, one for each
  text: a write that raises ends the block, and the file keeps what was written
  before it. The result is the exception, if any, and what the file holds.
\<close>

fun write_texts :: "env \<Rightarrow> string \<Rightarrow> string list \<Rightarrow> string \<Rightarrow> exn option \<times> string" where
  "write_texts env path [] written = (None, written)"
| "write_texts env path (t # ts) written =
     (case write_error env path t of
        Some e \<Rightarrow> (Some e, written)
      | None \<Rightarrow> write_texts env path ts (written @ t))"

text \<open>
  \<open>with open(path, 'w') as f\<close> and the writes in it. When opening raises, nothing
  is changed; otherwise the file is created or emptied and the texts are written.
\<close>

definition write_file :: "env \<Rightarrow> string \<Rightarrow> string list \<Rightarrow> world \<Rightarrow> exn option \<times> world" where
  "write_file env path texts w =
     (case open_error env path of
        Some e \<Rightarrow> (Some e, w)
      | None \<Rightarrow>
          (let (raised, written) = write_texts env path texts []
           in (raised, (record_event (FileWritten path) w)\<lparr>files := (files w)(path \<mapsto> written)\<rparr>)))"

section \<open>QueryGenerator (query\_generator.py)\<close>

text \<open>
  The dictionaries the two methods return. A field that is \<open>None\<close> stands for a key
  that is absent or whose value is Python's \<open>None\<close>.
\<close>

record query_result =
  q_sql :: "string option"
  q_explanation :: "string option"
  q_success :: bool
  q_error :: "string option"
  q_error_type :: "string option"

record fix_result =
  f_sql :: "string option"
  f_changes :: "string option"
  f_warnings :: "string option"
  f_success :: bool
  f_error :: "string option"
  f_error_type :: "string option"

definition model_id :: string where
  "model_id = ''gemini-2.0-flash''"

definition min_delay :: real where
  "min_delay = 5"

text \<open>\<open>QueryGenerator._wait_for_rate_limit\<close>.\<close>

definition wait_for_rate_limit :: "env \<Rightarrow> world \<Rightarrow> world" where
  "wait_for_rate_limit env w =
     (let current_time = clock w;
          time_since_last = current_time - qg_last_request_time w;
          w1 = (if time_since_last < min_delay
                then sleep env (min_delay - time_since_last) w else w)
      in w1\<lparr>qg_last_request_time := clock w1\<rparr>)"

text \<open>
  The removal of a markdown code block, written out twice in the source (once in each
  method): the text between the first \<open>```json\<close> (or else the first \<open>```\<close>) and the
  next \<open>```\<close>, stripped; a text without a fence is left as it is.
\<close>

definition remove_code_block :: "string \<Rightarrow> exn + string" where
  "remove_code_block response_text =
     (if contains ''```json'' response_text then
        and_then (split ''```json'' response_text) (\<lambda>parts.
        and_then (item parts 1) (\<lambda>inner.
        and_then (split ''```'' inner) (\<lambda>parts'.
        and_then (item parts' 0) (\<lambda>body. Inr (strip body)))))
      else if contains ''```'' response_text then
        and_then (split ''```'' response_text) (\<lambda>parts.
        and_then (item parts 1) (\<lambda>inner.
        and_then (split ''```'' inner) (\<lambda>parts'.
        and_then (item parts' 0) (\<lambda>body. Inr (strip body)))))
      else Inr response_text)"

text \<open>\<open>result.get(key, '').strip()\<close>.\<close>

definition get_stripped :: "json \<Rightarrow> string \<Rightarrow> exn + string" where
  "get_stripped result key = and_then (get result key (JStr [])) value_strip"

definition is_rate_limit :: "string \<Rightarrow> bool" where
  "is_rate_limit error_msg =
     (contains ''429'' error_msg \<or> contains ''RESOURCE_EXHAUSTED'' error_msg)"

text \<open>
  \<open>QueryGenerator.generate_sql\<close>. Everything from the completion call to the
  construction of the returned dictionary is inside the \<open>try\<close>.
\<close>

definition generate_sql :: "env \<Rightarrow> string \<Rightarrow> world \<Rightarrow> query_result \<times> world" where
  "generate_sql env natural_language_query w =
     (let prompt = SqlPrompt natural_language_query;
          (response, w1) = models_generate_content env model_id prompt w;
          tried =
            and_then response (\<lambda>response_text.
            and_then (remove_code_block response_text) (\<lambda>response_text.
            and_then (loads env response_text) (\<lambda>result.
            and_then (get_stripped result ''sql'') (\<lambda>sql.
            and_then (get_stripped result ''explanation'') (\<lambda>explanation.
              Inr \<lparr>q_sql = Some sql, q_explanation = Some explanation, q_success = True,
                   q_error = None, q_error_type = None\<rparr>)))))
      in (case tried of
            Inr returned \<Rightarrow> returned
          | Inl error_msg \<Rightarrow>
              if is_rate_limit error_msg then
                \<lparr>q_sql = None, q_explanation = None, q_success = False,
                 q_error = Some ''Rate limit exceeded. Try again in a few minutes or enable billing for higher quota.'',
                 q_error_type = Some ''rate_limit''\<rparr>
              else
                \<lparr>q_sql = None, q_explanation = None, q_success = False,
                 q_error = Some error_msg, q_error_type = None\<rparr>,
          w1))"

text \<open>
  The prompt of \<open>validate_and_improve_query\<close>: the query and, after it, the error
  when one is given (\<open>if error_message\<close>: neither \<open>None\<close> nor empty) or the request
  to validate.
\<close>

definition review_prompt :: "string \<Rightarrow> string option \<Rightarrow> prompt" where
  "review_prompt sql_query error_message =
     ReviewPrompt sql_query
       (case error_message of
          None \<Rightarrow> ''Please validate and optimize this query.''
        | Some m \<Rightarrow>
            if m = [] then ''Please validate and optimize this query.''
            else ''Error encountered: '' @ m)"

text \<open>
  \<open>QueryGenerator.validate_and_improve_query\<close>. The prompt is built before the
  \<open>try\<close>; the wait for the rate limit is its first statement.
\<close>

definition validate_and_improve_query ::
  "env \<Rightarrow> string \<Rightarrow> string option \<Rightarrow> world \<Rightarrow> fix_result \<times> world" where
  "validate_and_improve_query env sql_query error_message w0 =
     (let w = record_event (Corrector sql_query error_message) w0;
          prompt = review_prompt sql_query error_message;
          w1 = wait_for_rate_limit env w;
          (response, w2) = models_generate_content env model_id prompt w1;
          tried =
            and_then response (\<lambda>response_text.
            and_then (remove_code_block response_text) (\<lambda>response_text.
            and_then (loads env response_text) (\<lambda>result.
            and_then (get_stripped result ''sql'') (\<lambda>sql.
            and_then (get_stripped result ''changes'') (\<lambda>changes.
            and_then (get_stripped result ''warnings'') (\<lambda>warnings.
              Inr \<lparr>f_sql = Some sql, f_changes = Some changes, f_warnings = Some warnings,
                   f_success = True, f_error = None, f_error_type = None\<rparr>))))))
      in (case tried of
            Inr returned \<Rightarrow> returned
          | Inl error_msg \<Rightarrow>
              if is_rate_limit error_msg then
                \<lparr>f_sql = None, f_changes = None, f_warnings = None, f_success = False,
                 f_error = Some ''Rate limit exceeded. Try again in a few minutes.'',
                 f_error_type = Some ''rate_limit''\<rparr>
              else
                \<lparr>f_sql = None, f_changes = None, f_warnings = None, f_success = False,
                 f_error = Some error_msg, f_error_type = None\<rparr>,
          w2))"

section \<open>AutomatedEDA (automated\_eda.py)\<close>

text \<open>
  \<open>AutomatedEDA.execute_query\<close>: it returns the pair \<open>(df, None)\<close>, or the pair
  \<open>(None, str(e))\<close> when connecting or reading raised an exception that
  \<open>except Exception\<close> catches; any other exception leaves the method.
\<close>

definition execute_query ::
  "env \<Rightarrow> string \<Rightarrow> world \<Rightarrow> (exn + data_frame option \<times> string option) \<times> world" where
  "execute_query env sql_query w =
     ((case read_sql env (trace w) sql_query of
         Inr df \<Rightarrow> Inr (Some df, None)
       | Inl (Exception e) \<Rightarrow> Inr (None, Some e)
       | Inl (BaseException e) \<Rightarrow> Inl e),
      record_event (Executor sql_query) w)"

text \<open>\<open>os.path.join(a, b)\<close> on a POSIX system.\<close>

definition path_join :: "string \<Rightarrow> string \<Rightarrow> string" where
  "path_join a b =
     (if prefix ''/'' b then b
      else if a = [] \<or> suffix ''/'' a then a @ b
      else a @ ''/'' @ b)"

definition output_dir :: string where
  "output_dir = ''../outputs''"

text \<open>
  \<open>AutomatedEDA.generate_eda_report\<close>: statistics, charts and exports are the
  reporting sink's work. Every file it writes is named
  \<open>os.path.join(self.output_dir, f"{analysis_name}...")\<close>.
\<close>

definition write_outputs :: "string \<Rightarrow> (string \<times> string) list \<Rightarrow> world \<Rightarrow> world" where
  "write_outputs analysis_name written w =
     fold (\<lambda>(rest, content) w'.
             (record_event (FileWritten (path_join output_dir (analysis_name @ rest))) w')
               \<lparr>files := (files w')(path_join output_dir (analysis_name @ rest) \<mapsto> content)\<rparr>)
          written w"

definition generate_eda_report ::
  "env \<Rightarrow> data_frame \<Rightarrow> string \<Rightarrow> string \<Rightarrow> world \<Rightarrow> (exn + analysis) \<times> world" where
  "generate_eda_report env df query_context analysis_name w =
     (let (written, outcome) = eda env df query_context analysis_name
      in (outcome, write_outputs analysis_name written w))"

section \<open>SummaryGenerator (summary\_generator.py)\<close>

definition summary_model_id :: string where
  "summary_model_id = ''gemini-2.0-flash-exp''"

text \<open>\<open>SummaryGenerator._wait_for_rate_limit\<close>, on the SummaryGenerator's own timestamp.\<close>

definition summary_wait_for_rate_limit :: "env \<Rightarrow> world \<Rightarrow> world" where
  "summary_wait_for_rate_limit env w =
     (let current_time = clock w;
          time_since_last = current_time - sg_last_request_time w;
          w1 = (if time_since_last < min_delay
                then sleep env (min_delay - time_since_last) w else w)
      in w1\<lparr>sg_last_request_time := clock w1\<rparr>)"

text \<open>
  The text returned in place of a summary when the completion call hit the rate
  limit. The four characters that open its fifth line in the source are given by the
  bytes of their UTF-8 encoding.
\<close>

definition rate_limit_summary :: string where
  "rate_limit_summary =
     ''Error generating summary: Rate limit exceeded.'' @ [CHR 0x0A, CHR 0x0A]
     @ ''Please wait a few minutes and try again.'' @ [CHR 0x0A, CHR 0x0A]
     @ [CHR 0xC3, CHR 0xB0, CHR 0xC5, CHR 0xB8, CHR 0xE2, CHR 0x80, CHR 0x99, CHR 0xC2, CHR 0xA1]
     @ '' To avoid this in production:'' @ [CHR 0x0A]
     @ ''- Enable billing at https://ai.google.dev/pricing for higher quota'' @ [CHR 0x0A]
     @ ''- Add longer delays between requests'' @ [CHR 0x0A]
     @ ''- Use batch processing for multiple analyses'' @ [CHR 0x0A]"

text \<open>
  \<open>SummaryGenerator.generate_executive_summary\<close>. The prompt is put together from
  the table and the analysis before the \<open>try\<close>, so an exception there leaves the
  method; an exception of the completion call is caught and an error text returned
  as the summary.
\<close>

definition generate_executive_summary ::
  "env \<Rightarrow> string \<Rightarrow> data_frame \<Rightarrow> analysis \<Rightarrow> world \<Rightarrow> (exn + string) \<times> world" where
  "generate_executive_summary env query_context df analysis_results w =
     (case summary_prompt env query_context df analysis_results of
        Inl e \<Rightarrow> (Inl e, w)
      | Inr prompt \<Rightarrow>
          (let w1 = summary_wait_for_rate_limit env w;
               (response, w2) = models_generate_content env summary_model_id (SummaryPrompt prompt) w1
           in (case response of
                 Inr summary \<Rightarrow> (Inr summary, w2)
               | Inl error_msg \<Rightarrow>
                   if is_rate_limit error_msg then (Inr rate_limit_summary, w2)
                   else (Inr (''Error generating summary: '' @ error_msg), w2))))"

text \<open>\<open>SummaryGenerator.save_report\<close> with the default \<open>output_dir\<close>.\<close>

definition save_report :: "env \<Rightarrow> string \<Rightarrow> string \<Rightarrow> world \<Rightarrow> (exn + string) \<times> world" where
  "save_report env report filename w =
     (let filepath = path_join ''../outputs'' filename;
          (raised, w') = write_file env filepath [report] w
      in (case raised of Some e \<Rightarrow> Inl e | None \<Rightarrow> Inr filepath, w'))"

section \<open>AnalyticsWorkflow (main.py)\<close>

text \<open>The dictionary \<open>run_analysis\<close> returns; \<open>None\<close> is a key that was never set.\<close>

record results =
  success :: bool
  query :: string
  timestamp :: string
  sql_query :: "string option"
  sql_explanation :: "string option"
  sql_file :: "string option"
  error :: "string option"
  row_count :: "nat option"
  dataframe :: "data_frame option"
  eda_results :: "analysis option"
  executive_summary :: "string option"
  report_file :: "string option"

text \<open>
  The path of the file that keeps the generated SQL, and the texts of the four
  \<open>f.write\<close> calls that fill it.
\<close>

definition sql_path :: "string \<Rightarrow> string" where
  "sql_path ts = path_join ''../sql_queries'' (''query_'' @ ts @ ''.sql'')"

definition sql_file_texts :: "string \<Rightarrow> string \<Rightarrow> string \<Rightarrow> string \<Rightarrow> string list" where
  "sql_file_texts ts natural_language_query explanation sql =
     [''-- Generated: '' @ ts @ [CHR 0x0A],
      ''-- Question: '' @ natural_language_query @ [CHR 0x0A],
      ''-- Explanation: '' @ explanation @ [CHR 0x0A, CHR 0x0A],
      sql]"

text \<open>\<open>if error:\<close> on the second component of the Executor's pair.\<close>

definition truthy :: "string option \<Rightarrow> bool" where
  "truthy err = (case err of None \<Rightarrow> False | Some m \<Rightarrow> m \<noteq> [])"

text \<open>
  Lines 107 to 168 of \<open>run_analysis\<close>: the row count, the exploratory analysis, the
  executive summary and the complete report. \<open>len(df)\<close> raises when \<open>df\<close> is \<open>None\<close>.
\<close>

definition report :: "env \<Rightarrow> string \<Rightarrow> string \<Rightarrow> data_frame option \<Rightarrow> results \<Rightarrow> world
    \<Rightarrow> (exn + results) \<times> world" where
  "report env natural_language_query sql df_opt results w =
     (case df_opt of
        None \<Rightarrow> (Inl (''object of type '' @ [CHR 0x27] @ ''NoneType'' @ [CHR 0x27] @ '' has no len()''), w)
      | Some df \<Rightarrow>
          (let results = results\<lparr>row_count := Some (length (rows df)), dataframe := Some df\<rparr>;
               analysis_name = ''analysis_'' @ timestamp results;
               (eda_outcome, w1) = generate_eda_report env df natural_language_query analysis_name w
           in (case eda_outcome of
                 Inl e \<Rightarrow> (Inl e, w1)
               | Inr analysis \<Rightarrow>
                   (let results = results\<lparr>eda_results := Some analysis\<rparr>;
                        (summary_outcome, w2) =
                          generate_executive_summary env natural_language_query df analysis w1
                    in (case summary_outcome of
                          Inl e \<Rightarrow> (Inl e, w2)
                        | Inr summary \<Rightarrow>
                            (let results = results\<lparr>executive_summary := Some summary\<rparr>
                             in (case detailed_report env natural_language_query sql df analysis summary of
                                   Inl e \<Rightarrow> (Inl e, w2)
                                 | Inr full_report \<Rightarrow>
                                     (let (saved, w3) = save_report env full_report
                                             (''complete_report_'' @ timestamp results @ ''.md'') w2
                                      in (case saved of
                                            Inl e \<Rightarrow> (Inl e, w3)
                                          | Inr report_path \<Rightarrow>
                                              (Inr (results\<lparr>report_file := Some report_path,
                                                            success := True\<rparr>), w3))))))))))"

text \<open>
  Lines 77 to 105: the first execution and, when it failed, the one correction and
  the one retry. A successful correction always carries its SQL (lemma
  \<open>validate_and_improve_query_success\<close> below), so the case without one is never
  taken.
\<close>

definition execute_and_repair :: "env \<Rightarrow> string \<Rightarrow> string \<Rightarrow> results \<Rightarrow> world
    \<Rightarrow> (exn + results) \<times> world" where
  "execute_and_repair env natural_language_query sql results w =
     (let (executed, w1) = execute_query env sql w
      in (case executed of
            Inl e \<Rightarrow> (Inl e, w1)
          | Inr (df, err) \<Rightarrow>
              if truthy err then
                (let (fix_result, w2) = validate_and_improve_query env sql err w1
                 in if f_success fix_result then
                      (case f_sql fix_result of
                         None \<Rightarrow> (Inl ''TypeError'', w2)
                       | Some sql' \<Rightarrow>
                           (let results = results\<lparr>sql_query := Some sql'\<rparr>;
                                (executed', w3) = execute_query env sql' w2
                            in (case executed' of
                                  Inl e \<Rightarrow> (Inl e, w3)
                                | Inr (df', err') \<Rightarrow>
                                    if truthy err' then (Inr (results\<lparr>error := err'\<rparr>), w3)
                                    else report env natural_language_query sql' df' results w3)))
                    else (Inr (results\<lparr>error := err\<rparr>), w2))
              else report env natural_language_query sql df results w1))"

text \<open>
  \<open>AnalyticsWorkflow.run_analysis\<close>. The result is the returned dictionary, or the
  exception that left the method. Output to the terminal is left out. A successful
  generation always carries both of its texts (lemma \<open>generate_sql_success\<close> below),
  so the last case is never taken.
\<close>

definition run_analysis :: "env \<Rightarrow> string \<Rightarrow> bool \<Rightarrow> world \<Rightarrow> (exn + results) \<times> world" where
  "run_analysis env natural_language_query save_sql w =
     (let results = \<lparr>success = False, query = natural_language_query,
                      timestamp = strftime_now env, sql_query = None, sql_explanation = None,
                      sql_file = None, error = None, row_count = None, dataframe = None,
                      eda_results = None, executive_summary = None, report_file = None\<rparr>;
          (query_result, w1) = generate_sql env natural_language_query w
      in if \<not> q_success query_result then (Inr results, w1)
         else (case (q_sql query_result, q_explanation query_result) of
                 (Some sql, Some explanation) \<Rightarrow>
                   (let results = results\<lparr>sql_query := Some sql, sql_explanation := Some explanation\<rparr>
                    in if save_sql then
                         (let (raised, w2) =
                                write_file env (sql_path (timestamp results))
                                  (sql_file_texts (timestamp results) natural_language_query
                                     explanation sql) w1
                          in (case raised of
                                Some e \<Rightarrow> (Inl e, w2)
                              | None \<Rightarrow>
                                  execute_and_repair env natural_language_query sql
                                    (results\<lparr>sql_file := Some (sql_path (timestamp results))\<rparr>) w2))
                       else execute_and_repair env natural_language_query sql results w1)
               | _ \<Rightarrow> (Inl ''TypeError'', w1)))"

section \<open>Counting calls\<close>

definition executor_calls :: "event list \<Rightarrow> nat" where
  "executor_calls evs = length (filter (\<lambda>e. case e of Executor s \<Rightarrow> True | _ \<Rightarrow> False) evs)"

definition corrector_calls :: "event list \<Rightarrow> nat" where
  "corrector_calls evs = length (filter (\<lambda>e. case e of Corrector s m \<Rightarrow> True | _ \<Rightarrow> False) evs)"

text \<open>The calls of the Executor and of the Corrector in a trace, in order.\<close>

definition is_call :: "event \<Rightarrow> bool" where
  "is_call e = (case e of Executor s \<Rightarrow> True | Corrector s m \<Rightarrow> True | _ \<Rightarrow> False)"

definition calls :: "world \<Rightarrow> event list" where
  "calls w = filter is_call (trace w)"

section \<open>Example environments\<close>

text \<open>
  \<open>json.loads\<close> on the texts of the examples below; any other text is taken as
  undecodable.
\<close>

definition sample_loads :: "string \<Rightarrow> exn + json" where
  \<open>sample_loads s =
     (if s = ''{}'' then Inr (JObj [])
      else if s = ''{"sql": "SELECT 1", "explanation": "one"}'' then
        Inr (JObj [(''sql'', JStr ''SELECT 1''), (''explanation'', JStr ''one'')])
      else if s = ''{"sql": "SELECT 2", "changes": "fixed", "warnings": "none"}'' then
        Inr (JObj [(''sql'', JStr ''SELECT 2''), (''changes'', JStr ''fixed''),
                   (''warnings'', JStr ''none'')])
      else if s = ''{"sql": "```{}```"}'' then Inr (JObj [(''sql'', JStr ''```{}```'')])
      else if s = ''{"sql": "'' then
        Inl ''Unterminated string starting at: line 1 column 9 (char 8)''
      else Inl ''Expecting value: line 1 column 1 (char 0)'')\<close>

definition sample_frame :: data_frame where
  "sample_frame = \<lparr>columns = [''n''], rows = [[''1'']]\<rparr>"

text \<open>
  An environment around a completion service and a database: completion requests
  take one second, the files can be opened and written, the exploratory analysis
  writes its text report.
\<close>

definition sample_env ::
  "(event list \<Rightarrow> string \<Rightarrow> prompt \<Rightarrow> exn + string)
     \<Rightarrow> (event list \<Rightarrow> string \<Rightarrow> raised + data_frame) \<Rightarrow> env" where
  "sample_env service db =
     \<lparr>generate_content = service, loads = sample_loads, read_sql = db,
      latency = (\<lambda>h. 1), oversleep = 0, strftime_now = ''2024-02-08_10-30-00'',
      open_error = (\<lambda>p. None), write_error = (\<lambda>p t. None),
      eda = (\<lambda>df q name. ([(''_report.txt'', ''=== Automated EDA Report ==='')],
                Inr \<lparr>insights = [], visualization_files = [], tableau_files = []\<rparr>)),
      summary_prompt = (\<lambda>q df a. Inr q),
      detailed_report = (\<lambda>q sql df a summary. Inr summary)\<rparr>"

text \<open>The world right after the workflow's objects were constructed, at time 1000.\<close>

definition fresh :: world where
  "fresh = \<lparr>clock = 1000, qg_last_request_time = 0, sg_last_request_time = 0,
            files = Map.empty, trace = []\<rparr>"

definition quota_exhausted :: "event list \<Rightarrow> string \<Rightarrow> prompt \<Rightarrow> exn + string" where
  "quota_exhausted h m p = Inl ''429 RESOURCE_EXHAUSTED''"

definition no_database :: "event list \<Rightarrow> string \<Rightarrow> raised + data_frame" where
  "no_database h sql = Inl (Exception ''connection refused'')"

text \<open>
  A query that the user interrupts (\<open>KeyboardInterrupt\<close>, whose message is empty),
  and a directory in which no file can be opened for writing.
\<close>

definition interrupted :: "event list \<Rightarrow> string \<Rightarrow> raised + data_frame" where
  "interrupted h sql = Inl (BaseException [])"



definition select_one :: "event list \<Rightarrow> string \<Rightarrow> prompt \<Rightarrow> exn + string" where
  \<open>select_one h m p = Inr ''{"sql": "SELECT 1", "explanation": "one"}''\<close>

text \<open>
  A payload inside a markdown code block, as the completion service may wrap it:
  the opening fence (with or without the \<open>json\<close> tag), a line break, the payload,
  a line break, the closing fence.
\<close>

definition fenced_json :: "string \<Rightarrow> string" where
  "fenced_json payload = ''```json'' @ [CHR 0x0A] @ payload @ [CHR 0x0A] @ ''```''"

definition fenced :: "string \<Rightarrow> string" where
  "fenced payload = ''```'' @ [CHR 0x0A] @ payload @ [CHR 0x0A] @ ''```''"

text \<open>A completion service that answers every request with the same text.\<close>

definition answer :: "string \<Rightarrow> event list \<Rightarrow> string \<Rightarrow> prompt \<Rightarrow> exn + string" where
  "answer text h m p = Inr text"

text \<open>Payloads: one whose \<open>sql\<close> itself contains code fences, and an ordinary one.\<close>

definition fence_in_payload :: string where
  \<open>fence_in_payload = ''{"sql": "```{}```"}''\<close>

definition plain_payload :: string where
  \<open>plain_payload = ''{"sql": "SELECT 1", "explanation": "one"}''\<close>

text \<open>The dictionary a run starts with.\<close>

definition new_results :: "env \<Rightarrow> string \<Rightarrow> results" where
  "new_results env natural_language_query =
     \<lparr>success = False, query = natural_language_query,
      timestamp = strftime_now env, sql_query = None, sql_explanation = None,
      sql_file = None, error = None, row_count = None, dataframe = None,
      eda_results = None, executive_summary = None, report_file = None\<rparr>"

text \<open>
  A completion service that answers the Generator and the Corrector and fails for the
  summary, and a database that answers every query with one row.
\<close>

definition summary_unavailable :: "event list \<Rightarrow> string \<Rightarrow> prompt \<Rightarrow> exn + string" where
  "summary_unavailable h m p =
     (case p of SummaryPrompt s \<Rightarrow> Inl ''503 UNAVAILABLE'' | _ \<Rightarrow> Inr plain_payload)"

definition one_row :: "event list \<Rightarrow> string \<Rightarrow> raised + data_frame" where
  "one_row h sql = Inr sample_frame"

section \<open>Predicates of the proofs\<close>

text \<open>
  From \<open>w\<close> to \<open>w'\<close> the trace has only grown and the file at \<open>path\<close> is unchanged.
\<close>

definition kept :: "string \<Rightarrow> world \<Rightarrow> world \<Rightarrow> bool" where
  "kept path w w' = (prefix (trace w) (trace w') \<and> files w' path = files w path)"

text \<open>
  The ways the reporting steps end when started with the dictionary \<open>res\<close> (an
  exception, or the full report), and the ways execution and repair end.
\<close>

definition finished :: "results \<Rightarrow> exn + results \<Rightarrow> bool" where
  "finished res out =
     ((\<exists>e. out = Inl e)
      \<or> (\<exists>d a s p. out =
            Inr (res\<lparr>row_count := Some (length (rows d)), dataframe := Some d,
                     eda_results := Some a, executive_summary := Some s,
                     report_file := Some p, success := True\<rparr>)))"

definition repaired :: "results \<Rightarrow> exn + results \<Rightarrow> bool" where
  "repaired res out =
     (finished res out
      \<or> (\<exists>sql'. finished (res\<lparr>sql_query := Some sql'\<rparr>) out)
      \<or> (\<exists>e. e \<noteq> [] \<and> out = Inr (res\<lparr>error := Some e\<rparr>))
      \<or> (\<exists>sql' e. e \<noteq> [] \<and> out = Inr (res\<lparr>sql_query := Some sql', error := Some e\<rparr>)))"

section \<open>What each operation adds to the trace\<close>

lemma trace_record_event [simp]: "trace (record_event e w) = trace w @ [e]"
  by (simp add: record_event_def)

lemma trace_sleep [simp]: "trace (sleep env secs w) = trace w @ [Sleep secs]"
  by (simp add: sleep_def)

lemma trace_models_generate_content [simp]:
  "trace (snd (models_generate_content env m p w)) = trace w @ [Completion (clock w) m p]"
  by (simp add: models_generate_content_def)


lemma trace_wait_for_rate_limit:
  "trace (wait_for_rate_limit env w) =
     trace w @ (if clock w - qg_last_request_time w < min_delay
                then [Sleep (min_delay - (clock w - qg_last_request_time w))] else [])"
  by (simp add: wait_for_rate_limit_def Let_def)

lemma trace_execute_query [simp]:
  "trace (snd (execute_query env sql w)) = trace w @ [Executor sql]"
  by (simp add: execute_query_def)

section \<open>The Executor\<close>

text \<open>
  Claim C3, as the code has it. When connecting and reading raise nothing that
  \<open>except Exception\<close> does not catch, \<open>execute_query\<close> returns: a table and no
  error when the database answered, no table and the exception's message when it
  raised. Exactly one of the two is present (is not \<open>None\<close>).
\<close>

theorem execute_query_rows_or_error:
  assumes "\<forall>e. read_sql env (trace w) sql \<noteq> Inl (BaseException e)"
  shows "(\<exists>df. read_sql env (trace w) sql = Inr df
           \<and> fst (execute_query env sql w) = Inr (Some df, None))
       \<or> (\<exists>e. read_sql env (trace w) sql = Inl (Exception e)
           \<and> fst (execute_query env sql w) = Inr (None, Some e))"
proof (cases "read_sql env (trace w) sql")
  case (Inr df)
  then show ?thesis by (simp add: execute_query_def)
next
  case (Inl r)
  with assms obtain e where "r = Exception e" by (cases r) auto
  with Inl show ?thesis by (simp add: execute_query_def)
qed

text \<open>
  An exception that \<open>except Exception\<close> does not catch leaves the method: the claim
  as stated fails when the query is interrupted.
\<close>

lemma execute_query_not_caught:
  assumes "read_sql env (trace w) sql = Inl (BaseException e)"
  shows "fst (execute_query env sql w) = Inl e"
  using assms by (simp add: execute_query_def)

theorem execute_query_interrupted_counterexample:
  "fst (execute_query (sample_env quota_exhausted interrupted) ''SELECT 1'' fresh) = Inl []"
  by (simp add: execute_query_def sample_env_def interrupted_def)

theorem execute_query_rows_or_error_witness:
  "fst (execute_query (sample_env quota_exhausted no_database) ''SELECT 1'' fresh)
     = Inr (None, Some ''connection refused'')
   \<and> fst (execute_query (sample_env quota_exhausted one_row) ''SELECT 1'' fresh)
     = Inr (Some sample_frame, None)"
proof -
  have a: "\<forall>e. read_sql (sample_env quota_exhausted no_database) (trace fresh) ''SELECT 1''
             \<noteq> Inl (BaseException e)"
    by (simp add: sample_env_def no_database_def)
  have b: "\<forall>e. read_sql (sample_env quota_exhausted one_row) (trace fresh) ''SELECT 1''
             \<noteq> Inl (BaseException e)"
    by (simp add: sample_env_def one_row_def)
  from execute_query_rows_or_error [OF a] execute_query_rows_or_error [OF b]
  show ?thesis
    by (simp add: sample_env_def no_database_def one_row_def)
qed

section \<open>The calls a run makes\<close>

lemma is_call_simps [simp]:
  "is_call (Executor s)" "is_call (Corrector s m)" "\<not> is_call (Completion t md p)"
  "\<not> is_call (Sleep d)" "\<not> is_call (FileWritten f)"
  by (simp_all add: is_call_def)

lemma calls_record_event [simp]:
  "calls (record_event e w) = calls w @ (if is_call e then [e] else [])"
  by (simp add: calls_def)

lemma calls_update [simp]:
  "calls (w\<lparr>clock := c\<rparr>) = calls w"
  "calls (w\<lparr>files := f\<rparr>) = calls w"
  "calls (w\<lparr>qg_last_request_time := t\<rparr>) = calls w"
  "calls (w\<lparr>sg_last_request_time := t\<rparr>) = calls w"
  by (simp_all add: calls_def)

lemma calls_sleep [simp]: "calls (sleep env secs w) = calls w"
  by (simp add: sleep_def)

lemma calls_models_generate_content [simp]:
  "calls (snd (models_generate_content env m p w)) = calls w"
  by (simp add: models_generate_content_def)

lemma snd_generate_sql:
  "snd (generate_sql env q w) = snd (models_generate_content env model_id (SqlPrompt q) w)"
  by (simp add: generate_sql_def Let_def split_beta)

lemma calls_generate_sql [simp]: "calls (snd (generate_sql env q w)) = calls w"
  by (simp add: snd_generate_sql)

lemma calls_wait_for_rate_limit [simp]: "calls (wait_for_rate_limit env w) = calls w"
  by (simp add: wait_for_rate_limit_def Let_def)

lemma calls_summary_wait_for_rate_limit [simp]:
  "calls (summary_wait_for_rate_limit env w) = calls w"
  by (simp add: summary_wait_for_rate_limit_def Let_def)

lemma snd_validate_and_improve_query:
  "snd (validate_and_improve_query env sql m w) =
     snd (models_generate_content env model_id (review_prompt sql m)
            (wait_for_rate_limit env (record_event (Corrector sql m) w)))"
  by (simp add: validate_and_improve_query_def Let_def split_beta)

lemma calls_validate_and_improve_query [simp]:
  "calls (snd (validate_and_improve_query env sql m w)) = calls w @ [Corrector sql m]"
  by (simp add: snd_validate_and_improve_query)

lemma calls_execute_query [simp]:
  "calls (snd (execute_query env sql w)) = calls w @ [Executor sql]"
  by (simp add: execute_query_def)

lemma calls_write_file [simp]: "calls (snd (write_file env path texts w)) = calls w"
  by (cases "open_error env path") (simp_all add: write_file_def split_beta)

lemma calls_write_outputs [simp]: "calls (write_outputs name written w) = calls w"
  unfolding write_outputs_def
  by (induction written arbitrary: w) (simp_all add: split_beta)

lemma calls_generate_eda_report [simp]:
  "calls (snd (generate_eda_report env df q name w)) = calls w"
  by (simp add: generate_eda_report_def split_beta)

lemma calls_generate_executive_summary [simp]:
  "calls (snd (generate_executive_summary env q df a w)) = calls w"
proof (cases "summary_prompt env q df a")
  case (Inl e)
  then show ?thesis by (simp add: generate_executive_summary_def)
next
  case (Inr p)
  have "snd (generate_executive_summary env q df a w) =
          snd (models_generate_content env summary_model_id (SummaryPrompt p)
                 (summary_wait_for_rate_limit env w))"
    using Inr
    by (simp add: generate_executive_summary_def Let_def split_beta split: sum.splits)
  then show ?thesis by simp
qed

lemma calls_save_report [simp]: "calls (snd (save_report env r f w)) = calls w"
  by (simp add: save_report_def Let_def split_beta)

lemma calls_report [simp]: "calls (snd (report env q sql df res w)) = calls w"
proof (cases df)
  case None
  then show ?thesis by (simp add: report_def)
next
  case (Some d)
  obtain eo w1 where g: "generate_eda_report env d q (''analysis_'' @ timestamp res) w = (eo, w1)"
    by (cases "generate_eda_report env d q (''analysis_'' @ timestamp res) w")
  have c1: "calls w1 = calls w"
    using calls_generate_eda_report [of env d q "''analysis_'' @ timestamp res" w]
    by (simp only: g snd_conv)
  show ?thesis
  proof (cases eo)
    case (Inl e)
    with Some g c1 show ?thesis by (simp add: report_def)
  next
    case analysis: (Inr a)
    obtain so w2 where s: "generate_executive_summary env q d a w1 = (so, w2)"
      by (cases "generate_executive_summary env q d a w1")
    have c2: "calls w2 = calls w"
      using calls_generate_executive_summary [of env q d a w1]
      by (simp only: s snd_conv c1)
    show ?thesis
    proof (cases so)
      case (Inl e)
      with Some g analysis s c2 show ?thesis by (simp add: report_def)
    next
      case summary: (Inr summary)
      show ?thesis
      proof (cases "detailed_report env q sql d a summary")
        case (Inl e)
        with Some g analysis s summary c2 show ?thesis by (simp add: report_def)
      next
        case full: (Inr full_report)
        obtain sv w3 where v: "save_report env full_report
            (''complete_report_'' @ timestamp res @ ''.md'') w2 = (sv, w3)"
          by (cases "save_report env full_report
                (''complete_report_'' @ timestamp res @ ''.md'') w2")
        have c3: "calls w3 = calls w"
          using calls_save_report [of env full_report
            "''complete_report_'' @ timestamp res @ ''.md''" w2]
          by (simp only: v snd_conv c2)
        from Some g analysis s summary full v c3 show ?thesis
          by (cases sv) (simp_all add: report_def)
      qed
    qed
  qed
qed

lemma calls_execute_and_repair:
  "calls (snd (execute_and_repair env q sql res w)) = calls w @ [Executor sql]
   \<or> (\<exists>err. calls (snd (execute_and_repair env q sql res w))
               = calls w @ [Executor sql, Corrector sql err])
   \<or> (\<exists>err sql'. calls (snd (execute_and_repair env q sql res w))
               = calls w @ [Executor sql, Corrector sql err, Executor sql'])"
proof -
  obtain ex w1 where x: "execute_query env sql w = (ex, w1)"
    by (cases "execute_query env sql w")
  have c1: "calls w1 = calls w @ [Executor sql]"
    using calls_execute_query [of env sql w] by (simp only: x snd_conv)
  show ?thesis
  proof (cases ex)
    case (Inl e)
    with x c1 show ?thesis by (simp add: execute_and_repair_def)
  next
    case (Inr pr)
    obtain df err where pr: "pr = (df, err)" by (cases pr)
    show ?thesis
    proof (cases "truthy err")
      case False
      with x Inr pr c1 show ?thesis by (simp add: execute_and_repair_def)
    next
      case True
      obtain fr w2 where f: "validate_and_improve_query env sql err w1 = (fr, w2)"
        by (cases "validate_and_improve_query env sql err w1")
      have c2: "calls w2 = calls w @ [Executor sql, Corrector sql err]"
        using calls_validate_and_improve_query [of env sql err w1]
        by (simp only: f snd_conv c1) simp
      show ?thesis
      proof (cases "f_success fr")
        case False
        with x Inr pr True f c2 show ?thesis by (simp add: execute_and_repair_def)
      next
        case succ: True
        show ?thesis
        proof (cases "f_sql fr")
          case None
          with x Inr pr True f succ c2 show ?thesis by (simp add: execute_and_repair_def)
        next
          case (Some sql')
          obtain ey w3 where y: "execute_query env sql' w2 = (ey, w3)"
            by (cases "execute_query env sql' w2")
          have c3: "calls w3 = calls w @ [Executor sql, Corrector sql err, Executor sql']"
            using calls_execute_query [of env sql' w2]
            by (simp only: y snd_conv c2) simp
          show ?thesis
          proof (cases ey)
            case again: (Inl e)
            with x Inr pr True f succ Some y c3 show ?thesis
              by (simp add: execute_and_repair_def)
          next
            case again: (Inr pr')
            obtain df' err' where pr': "pr' = (df', err')" by (cases pr')
            from x Inr pr True f succ Some y again pr' c3 show ?thesis
              by (cases "truthy err'") (simp_all add: execute_and_repair_def)
          qed
        qed
      qed
    qed
  qed
qed

lemma run_analysis_unfold:
  "run_analysis env q b w =
     (if \<not> q_success (fst (generate_sql env q w))
      then (Inr (new_results env q), snd (generate_sql env q w))
      else (case (q_sql (fst (generate_sql env q w)), q_explanation (fst (generate_sql env q w))) of
              (Some sql, Some explanation) \<Rightarrow>
                if b then
                  (case fst (write_file env (sql_path (strftime_now env))
                               (sql_file_texts (strftime_now env) q explanation sql)
                               (snd (generate_sql env q w))) of
                     Some e \<Rightarrow>
                       (Inl e,
                        snd (write_file env (sql_path (strftime_now env))
                               (sql_file_texts (strftime_now env) q explanation sql)
                               (snd (generate_sql env q w))))
                   | None \<Rightarrow>
                       execute_and_repair env q sql
                         ((new_results env q)\<lparr>sql_query := Some sql,
                            sql_explanation := Some explanation,
                            sql_file := Some (sql_path (strftime_now env))\<rparr>)
                         (snd (write_file env (sql_path (strftime_now env))
                                (sql_file_texts (strftime_now env) q explanation sql)
                                (snd (generate_sql env q w)))))
                else execute_and_repair env q sql
                       ((new_results env q)\<lparr>sql_query := Some sql,
                          sql_explanation := Some explanation\<rparr>)
                       (snd (generate_sql env q w))
            | _ \<Rightarrow> (Inl ''TypeError'', snd (generate_sql env q w))))"
  by (cases "q_success (fst (generate_sql env q w))"; cases b)
     (simp_all add: run_analysis_def new_results_def Let_def split_beta
        split: option.splits sum.splits)

lemma calls_run_analysis:
  "calls (snd (run_analysis env q save_sql w)) = calls w
   \<or> (\<exists>sql. calls (snd (run_analysis env q save_sql w)) = calls w @ [Executor sql])
   \<or> (\<exists>sql err. calls (snd (run_analysis env q save_sql w))
               = calls w @ [Executor sql, Corrector sql err])
   \<or> (\<exists>sql err sql'. calls (snd (run_analysis env q save_sql w))
               = calls w @ [Executor sql, Corrector sql err, Executor sql'])"
proof -
  let ?w1 = "snd (generate_sql env q w)"
  have cg: "calls ?w1 = calls w" by simp
  show ?thesis
  proof (cases "q_success (fst (generate_sql env q w))")
    case False
    then show ?thesis by (simp add: run_analysis_unfold)
  next
    case True
    show ?thesis
    proof (cases "q_sql (fst (generate_sql env q w))")
      case None
      with True show ?thesis by (simp add: run_analysis_unfold)
    next
      case sql: (Some sql)
      show ?thesis
      proof (cases "q_explanation (fst (generate_sql env q w))")
        case None
        with True sql show ?thesis by (simp add: run_analysis_unfold)
      next
        case expl: (Some explanation)
        let ?r = "(new_results env q)\<lparr>sql_query := Some sql, sql_explanation := Some explanation\<rparr>"
        show ?thesis
        proof (cases save_sql)
          case False
          with True sql expl have "run_analysis env q save_sql w =
              execute_and_repair env q sql ?r ?w1"
            by (simp add: run_analysis_unfold)
          with calls_execute_and_repair [of env q sql ?r ?w1] show ?thesis
            by (simp only: cg) blast
        next
          case save: True
          let ?f = "write_file env (sql_path (strftime_now env))
                      (sql_file_texts (strftime_now env) q explanation sql) ?w1"
          have c2: "calls (snd ?f) = calls w" by simp
          show ?thesis
          proof (cases "fst ?f")
            case (Some e)
            with True sql expl save have "run_analysis env q save_sql w = (Inl e, snd ?f)"
              by (simp add: run_analysis_unfold)
            with c2 show ?thesis by simp
          next
            case None
            let ?r' = "?r\<lparr>sql_file := Some (sql_path (strftime_now env))\<rparr>"
            from None True sql expl save have "run_analysis env q save_sql w =
                execute_and_repair env q sql ?r' (snd ?f)"
              by (simp add: run_analysis_unfold)
            with calls_execute_and_repair [of env q sql ?r' "snd ?f"] show ?thesis
              by (simp only: c2) blast
          qed
        qed
      qed
    qed
  qed
qed

lemma executor_calls_calls: "executor_calls (trace w) = executor_calls (calls w)"
proof -
  have "filter (\<lambda>e. case e of Executor s \<Rightarrow> True | _ \<Rightarrow> False) (filter is_call evs)
      = filter (\<lambda>e. case e of Executor s \<Rightarrow> True | _ \<Rightarrow> False) evs" for evs
    by (induction evs) (auto simp: is_call_def split: event.splits)
  then show ?thesis by (simp add: executor_calls_def calls_def)
qed

lemma corrector_calls_calls: "corrector_calls (trace w) = corrector_calls (calls w)"
proof -
  have "filter (\<lambda>e. case e of Corrector s m \<Rightarrow> True | _ \<Rightarrow> False) (filter is_call evs)
      = filter (\<lambda>e. case e of Corrector s m \<Rightarrow> True | _ \<Rightarrow> False) evs" for evs
    by (induction evs) (auto simp: is_call_def split: event.splits)
  then show ?thesis by (simp add: corrector_calls_def calls_def)
qed

section \<open>The repair loop\<close>

text \<open>
  Claim C1. \<open>run_analysis\<close> is a total function, so every run ends; whatever the
  completion service and the database answer, a run adds at most one call of the
  Corrector and at most two calls of the Executor to the trace.
\<close>

theorem run_analysis_bounded_repair:
  "corrector_calls (trace (snd (run_analysis env q save_sql w))) \<le> corrector_calls (trace w) + 1
   \<and> executor_calls (trace (snd (run_analysis env q save_sql w))) \<le> executor_calls (trace w) + 2"
proof -
  from calls_run_analysis [of env q save_sql w]
  show ?thesis
    unfolding executor_calls_calls corrector_calls_calls
    by (auto simp: executor_calls_def corrector_calls_def)
qed

section \<open>Classification of failures\<close>

lemma generate_sql_raised:
  assumes "generate_content env (trace w) model_id (SqlPrompt q) = Inl e"
  shows "fst (generate_sql env q w) =
     (if is_rate_limit e then
        \<lparr>q_sql = None, q_explanation = None, q_success = False,
         q_error = Some ''Rate limit exceeded. Try again in a few minutes or enable billing for higher quota.'',
         q_error_type = Some ''rate_limit''\<rparr>
      else \<lparr>q_sql = None, q_explanation = None, q_success = False,
            q_error = Some e, q_error_type = None\<rparr>)"
  using assms
  by (simp add: generate_sql_def models_generate_content_def and_then_def Let_def)

lemma validate_and_improve_query_raised:
  assumes "generate_content env
             (trace (wait_for_rate_limit env (record_event (Corrector sql m) w)))
             model_id (review_prompt sql m) = Inl e"
  shows "fst (validate_and_improve_query env sql m w) =
     (if is_rate_limit e then
        \<lparr>f_sql = None, f_changes = None, f_warnings = None, f_success = False,
         f_error = Some ''Rate limit exceeded. Try again in a few minutes.'',
         f_error_type = Some ''rate_limit''\<rparr>
      else \<lparr>f_sql = None, f_changes = None, f_warnings = None, f_success = False,
            f_error = Some e, f_error_type = None\<rparr>)"
  using assms
  by (simp add: validate_and_improve_query_def models_generate_content_def and_then_def Let_def)

text \<open>
  Claim C4. When the completion call raises an error whose message contains
  \<open>429\<close> or \<open>RESOURCE_EXHAUSTED\<close>, \<open>generate_sql\<close> and
  \<open>validate_and_improve_query\<close> both return a failure whose \<open>error_type\<close> is
  \<open>rate_limit\<close>. The Corrector issues its request after the wait for the rate
  limit, so that is the trace its call is made in.
\<close>

theorem rate_limit_classification:
  assumes "contains ''429'' e \<or> contains ''RESOURCE_EXHAUSTED'' e"
  shows "(generate_content env (trace w) model_id (SqlPrompt q) = Inl e \<longrightarrow>
            \<not> q_success (fst (generate_sql env q w))
            \<and> q_error_type (fst (generate_sql env q w)) = Some ''rate_limit'')
       \<and> (generate_content env
             (trace (wait_for_rate_limit env (record_event (Corrector sql m) w)))
             model_id (review_prompt sql m) = Inl e \<longrightarrow>
            \<not> f_success (fst (validate_and_improve_query env sql m w))
            \<and> f_error_type (fst (validate_and_improve_query env sql m w)) = Some ''rate_limit'')"
proof -
  from assms have "is_rate_limit e" by (simp add: is_rate_limit_def)
  then show ?thesis
    by (simp add: generate_sql_raised validate_and_improve_query_raised)
qed

theorem rate_limit_classification_witness:
  "contains ''429'' ''429 RESOURCE_EXHAUSTED''
   \<and> \<not> q_success (fst (generate_sql (sample_env quota_exhausted no_database) ''top 5 products by revenue'' fresh))
   \<and> q_error_type (fst (generate_sql (sample_env quota_exhausted no_database) ''top 5 products by revenue'' fresh))
       = Some ''rate_limit''
   \<and> \<not> f_success (fst (validate_and_improve_query (sample_env quota_exhausted no_database)
                         ''SELECT x'' (Some ''column x does not exist'') fresh))
   \<and> f_error_type (fst (validate_and_improve_query (sample_env quota_exhausted no_database)
                         ''SELECT x'' (Some ''column x does not exist'') fresh))
       = Some ''rate_limit''"
proof -
  have c: "contains ''429'' ''429 RESOURCE_EXHAUSTED''" by simp
  have g: "generate_content (sample_env quota_exhausted no_database) h md p
             = Inl ''429 RESOURCE_EXHAUSTED''" for h md p
    by (simp add: sample_env_def quota_exhausted_def)
  from rate_limit_classification [of "''429 RESOURCE_EXHAUSTED''"
      "sample_env quota_exhausted no_database" fresh "''top 5 products by revenue''"
      "''SELECT x''" "Some ''column x does not exist''"] c g
  show ?thesis by simp
qed

section \<open>What a successful generation carries\<close>


lemma validate_and_improve_query_success:
  assumes "f_success (fst (validate_and_improve_query env sql m w))"
  shows "\<exists>sql'. f_sql (fst (validate_and_improve_query env sql m w)) = Some sql'"
  using assms
  by (auto simp: validate_and_improve_query_def models_generate_content_def and_then_def
      Let_def split_beta split: sum.splits if_splits)


lemma remove_code_block_plain:
  "\<not> contains ''```'' s \<Longrightarrow> remove_code_block s = Inr s"
proof -
  assume a: "\<not> contains ''```'' s"
  have "contains (x @ y) s \<Longrightarrow> contains x s" for x y
  proof (induction s)
    case Nil then show ?case by simp
  next
    case (Cons c cs)
    then show ?case by (auto simp: prefix_def)
  qed
  from this [of "''```''" "''json''"] a have "\<not> contains ''```json'' s" by auto
  with a show ?thesis by (simp add: remove_code_block_def)
qed



section \<open>Responses inside a code block\<close>

lemma contains_sublist: "contains sub s = sublist sub s"
  by (induction s) (simp_all add: sublist_Cons_right)

lemma partition_first_None: "partition_first sep s = None \<longleftrightarrow> \<not> sublist sep s"
  by (induction s) (auto simp: sublist_Cons_right split: option.splits)

lemma partition_first_at:
  assumes "sep \<noteq> []" and "\<not> sublist sep (u @ butlast sep)"
  shows "partition_first sep (u @ sep @ v) = Some (u, v)"
  using assms(2)
proof (induction u)
  case Nil
  from assms(1) obtain c cs where sep: "sep = c # cs" by (cases sep) auto
  then show ?case by simp
next
  case (Cons a u)
  from Cons.prems have no: "\<not> sublist sep (u @ butlast sep)"
    and np: "\<not> prefix sep (a # u @ butlast sep)"
    by (simp_all add: sublist_Cons_right)
  have "\<not> prefix sep (a # u @ sep @ v)"
  proof
    assume p: "prefix sep (a # u @ sep @ v)"
    have "a # u @ sep @ v = (a # u @ butlast sep) @ (last sep # v)"
      using assms(1) by simp
    moreover have "length sep \<le> length (a # u @ butlast sep)" by simp
    ultimately have "prefix sep (a # u @ butlast sep)"
      using p by (metis prefix_length_prefix prefixI)
    with np show False by simp
  qed
  with Cons.IH [OF no] show ?case by simp
qed

lemma sublist_across:
  assumes "sublist xs (ys @ c # zs)" and "c \<notin> set xs"
  shows "sublist xs ys \<or> sublist xs zs"
proof -
  have p: "prefix x (c # zs) \<Longrightarrow> c \<notin> set x \<Longrightarrow> x = []" for x
    by (cases x) auto
  from assms(1) consider "sublist xs ys" | "sublist xs (c # zs)"
    | xs1 xs2 where "xs = xs1 @ xs2" "suffix xs1 ys" "prefix xs2 (c # zs)"
    by (auto simp: sublist_append)
  then show ?thesis
  proof cases
    case 1
    then show ?thesis ..
  next
    case 2
    then have "prefix xs (c # zs) \<or> sublist xs zs" by (simp add: sublist_Cons_right)
    with p [of xs] assms(2) show ?thesis by auto
  next
    case 3
    with p [of xs2] assms(2) have "xs2 = []" by simp
    with 3 have "suffix xs ys" by simp
    then show ?thesis by auto
  qed
qed


lemma split_parts_whole: "\<not> sublist sep s \<Longrightarrow> split_parts sep s = [s]"
  by (subst split_parts.simps) (simp add: partition_first_None [symmetric])

lemma split_parts_at:
  "sep \<noteq> [] \<Longrightarrow> \<not> sublist sep (u @ butlast sep)
     \<Longrightarrow> split_parts sep (u @ sep @ v) = u # split_parts sep v"
  by (subst split_parts.simps) (simp add: partition_first_at)

lemma item_simps [simp]: "item (x # xs) 0 = Inr x" "item (x # y # ys) 1 = Inr y"
  by (simp_all add: item_def)

lemma strip_newlines: "strip (CHR 0x0A # p @ [CHR 0x0A]) = strip p"
proof -
  have nl: "isspace (CHR 0x0A)" by (simp add: isspace_def)
  then have a: "dropWhile isspace (CHR 0x0A # x) = dropWhile isspace x" for x by simp
  have b: "rev (dropWhile isspace (rev (dropWhile isspace (p @ [CHR 0x0A]))))
         = rev (dropWhile isspace (rev (dropWhile isspace p)))"
  proof (cases "\<forall>c \<in> set p. isspace c")
    case True
    with nl have "\<forall>c \<in> set (p @ [CHR 0x0A]). isspace c" by simp
    then have d1: "dropWhile isspace (p @ [CHR 0x0A]) = []"
      by (simp only: dropWhile_eq_Nil_conv)
    from True have d2: "dropWhile isspace p = []"
      by (simp only: dropWhile_eq_Nil_conv)
    show ?thesis by (simp only: d1 d2)
  next
    case False
    then obtain c where "c \<in> set p" "\<not> isspace c" by blast
    then have e: "dropWhile isspace (p @ [CHR 0x0A]) = dropWhile isspace p @ [CHR 0x0A]"
      by (rule dropWhile_append1)
    show ?thesis by (simp only: e rev_append rev.simps append.simps a)
  qed
  show ?thesis unfolding strip_def by (simp only: a b)
qed

lemma newline_not_backtick:
  "CHR 0x0A \<notin> set ''```''" "CHR 0x0A \<notin> set ''```json''"
  by simp_all

lemma no_fence_inside:
  assumes "\<not> sublist ''```'' p"
  shows "\<not> sublist ''```'' (CHR 0x0A # p @ CHR 0x0A # ''``'')"
    and "\<not> sublist ''```'' (CHR 0x0A # p @ [CHR 0x0A])"
    and "\<not> sublist ''```json'' (CHR 0x0A # p @ CHR 0x0A # ''```'')"
proof -
  have short: "\<not> sublist ''```'' ''``''" "\<not> sublist ''```json'' ''```''" "\<not> sublist ''```'' []"
    by (auto dest: sublist_length_le)
  have j: "\<not> sublist ''```json'' p"
  proof
    assume "sublist ''```json'' p"
    moreover have "sublist ''```'' ''```json''" by (rule prefix_imp_sublist) simp
    ultimately have "sublist ''```'' p" by (rule sublist_order.order.trans [rotated])
    with assms show False by simp
  qed
  show "\<not> sublist ''```'' (CHR 0x0A # p @ CHR 0x0A # ''``'')"
  proof
    assume "sublist ''```'' (CHR 0x0A # p @ CHR 0x0A # ''``'')"
    then have "sublist ''```'' ([] @ CHR 0x0A # (p @ CHR 0x0A # ''``''))" by simp
    from sublist_across [OF this newline_not_backtick(1)]
    have "sublist ''```'' (p @ CHR 0x0A # ''``'')" by simp
    from sublist_across [OF this newline_not_backtick(1)] assms short show False by simp
  qed
  show "\<not> sublist ''```'' (CHR 0x0A # p @ [CHR 0x0A])"
  proof
    assume "sublist ''```'' (CHR 0x0A # p @ [CHR 0x0A])"
    then have "sublist ''```'' ([] @ CHR 0x0A # (p @ CHR 0x0A # []))" by simp
    from sublist_across [OF this newline_not_backtick(1)]
    have "sublist ''```'' (p @ CHR 0x0A # [])" by simp
    from sublist_across [OF this newline_not_backtick(1)] assms short show False by simp
  qed
  show "\<not> sublist ''```json'' (CHR 0x0A # p @ CHR 0x0A # ''```'')"
  proof
    assume "sublist ''```json'' (CHR 0x0A # p @ CHR 0x0A # ''```'')"
    then have "sublist ''```json'' ([] @ CHR 0x0A # (p @ CHR 0x0A # ''```''))" by simp
    from sublist_across [OF this newline_not_backtick(2)]
    have "sublist ''```json'' (p @ CHR 0x0A # ''```'')" by simp
    from sublist_across [OF this newline_not_backtick(2)] j short show False by simp
  qed
qed


lemma split_fence_tail:
  assumes "\<not> sublist ''```'' p"
  shows "split_parts ''```'' (CHR 0x0A # p @ CHR 0x0A # ''```'')
           = (CHR 0x0A # p @ [CHR 0x0A]) # split_parts ''```'' []"
proof -
  have "\<not> sublist ''```'' ((CHR 0x0A # p @ [CHR 0x0A]) @ butlast ''```'')"
    using no_fence_inside(1) [OF assms] by simp
  then have "split_parts ''```'' ((CHR 0x0A # p @ [CHR 0x0A]) @ ''```'' @ [])
           = (CHR 0x0A # p @ [CHR 0x0A]) # split_parts ''```'' []"
    by (intro split_parts_at) simp_all
  then show ?thesis by simp
qed

lemma remove_code_block_fenced_json:
  assumes "\<not> contains ''```'' p"
  shows "remove_code_block (fenced_json p) = Inr (strip p)"
proof -
  from assms have np: "\<not> sublist ''```'' p" by (simp add: contains_sublist)
  let ?rest = "CHR 0x0A # p @ CHR 0x0A # ''```''"
  have c: "contains ''```json'' (fenced_json p)"
    by (simp add: fenced_json_def)
  have "\<not> sublist ''```json'' ([] @ butlast ''```json'')"
    by (auto dest: sublist_length_le)
  then have "split_parts ''```json'' ([] @ ''```json'' @ ?rest) = [] # split_parts ''```json'' ?rest"
    by (intro split_parts_at) simp_all
  moreover have "split_parts ''```json'' ?rest = [?rest]"
    using no_fence_inside(3) [OF np] by (rule split_parts_whole)
  ultimately have s1: "split ''```json'' (fenced_json p) = Inr [[], ?rest]"
    by (simp add: split_def fenced_json_def)
  have s2: "split ''```'' ?rest = Inr ((CHR 0x0A # p @ [CHR 0x0A]) # split_parts ''```'' [])"
    using split_fence_tail [OF np] by (simp add: split_def)
  show ?thesis
    unfolding remove_code_block_def
    by (simp only: c if_True s1 s2 and_then_def sum.case item_simps strip_newlines)
qed

lemma remove_code_block_fenced:
  assumes "\<not> contains ''```'' p"
  shows "remove_code_block (fenced p) = Inr (strip p)"
proof -
  from assms have np: "\<not> sublist ''```'' p" by (simp add: contains_sublist)
  let ?rest = "CHR 0x0A # p @ CHR 0x0A # ''```''"
  let ?body = "CHR 0x0A # p @ [CHR 0x0A]"
  have short: "\<not> sublist ''```json'' ''```''" by (auto dest: sublist_length_le)
  have nj: "\<not> contains ''```json'' (fenced p)"
  proof
    assume "contains ''```json'' (fenced p)"
    then have "sublist ''```json'' (''```'' @ CHR 0x0A # (p @ CHR 0x0A # ''```''))"
      by (simp add: contains_sublist fenced_def)
    from sublist_across [OF this newline_not_backtick(2)] short
    have "sublist ''```json'' (p @ CHR 0x0A # ''```'')" by simp
    then have "sublist ''```json'' ?rest" by (simp add: sublist_Cons_right)
    with no_fence_inside(3) [OF np] show False by simp
  qed
  have c: "contains ''```'' (fenced p)"
    by (simp add: fenced_def)
  have "\<not> sublist ''```'' ([] @ butlast ''```'')"
    by (auto dest: sublist_length_le)
  then have "split_parts ''```'' ([] @ ''```'' @ ?rest) = [] # split_parts ''```'' ?rest"
    by (intro split_parts_at) simp_all
  with split_fence_tail [OF np]
  have s1: "split ''```'' (fenced p) = Inr ([] # ?body # split_parts ''```'' [])"
    by (simp add: split_def fenced_def)
  have "split_parts ''```'' ?body = [?body]"
    using no_fence_inside(2) [OF np] by (rule split_parts_whole)
  then have s2: "split ''```'' ?body = Inr [?body]"
    by (simp add: split_def)
  show ?thesis
    unfolding remove_code_block_def
    by (simp only: nj c if_True if_False s1 s2 and_then_def sum.case item_simps strip_newlines)
qed


lemma split_fence_in_payload:
  \<open>split_parts ''```'' fence_in_payload = [''{"sql": "'', ''{}'', ''"}'']\<close>
  unfolding fence_in_payload_def
  by (subst split_parts.simps, simp, subst split_parts.simps, simp, subst split_parts.simps, simp)

lemma split_fenced_fence_in_payload:
  \<open>split_parts ''```json'' (fenced_json fence_in_payload)
     = [[], CHR 0x0A # ''{"sql": "```{}```"}'' @ CHR 0x0A # ''```'']\<close>
  unfolding fence_in_payload_def fenced_json_def
  by (subst split_parts.simps, simp, subst split_parts.simps, simp)

lemma split_fenced_rest:
  \<open>split_parts ''```'' (CHR 0x0A # ''{"sql": "```{}```"}'' @ CHR 0x0A # ''```'')
     = [CHR 0x0A # ''{"sql": "'', ''{}'', ''"}'' @ [CHR 0x0A], []]\<close>
  by (subst split_parts.simps, simp, subst split_parts.simps, simp, subst split_parts.simps, simp,
      subst split_parts.simps, simp)


lemma generate_sql_of_answer:
  "fst (generate_sql (env\<lparr>generate_content := answer text\<rparr>) q w) =
     (case and_then (and_then (remove_code_block text) (loads env)) (\<lambda>result.
            and_then (get_stripped result ''sql'') (\<lambda>sql.
            and_then (get_stripped result ''explanation'') (\<lambda>explanation.
              Inr \<lparr>q_sql = Some sql, q_explanation = Some explanation, q_success = True,
                   q_error = None, q_error_type = None\<rparr>))) of
        Inr returned \<Rightarrow> returned
      | Inl error_msg \<Rightarrow>
          if is_rate_limit error_msg then
            \<lparr>q_sql = None, q_explanation = None, q_success = False,
             q_error = Some ''Rate limit exceeded. Try again in a few minutes or enable billing for higher quota.'',
             q_error_type = Some ''rate_limit''\<rparr>
          else
            \<lparr>q_sql = None, q_explanation = None, q_success = False,
             q_error = Some error_msg, q_error_type = None\<rparr>)"
  by (simp add: generate_sql_def models_generate_content_def answer_def and_then_def Let_def
      split: sum.splits)

lemma validate_and_improve_query_of_answer:
  "fst (validate_and_improve_query (env\<lparr>generate_content := answer text\<rparr>) sql m w) =
     (case and_then (and_then (remove_code_block text) (loads env)) (\<lambda>result.
            and_then (get_stripped result ''sql'') (\<lambda>sql.
            and_then (get_stripped result ''changes'') (\<lambda>changes.
            and_then (get_stripped result ''warnings'') (\<lambda>warnings.
              Inr \<lparr>f_sql = Some sql, f_changes = Some changes, f_warnings = Some warnings,
                   f_success = True, f_error = None, f_error_type = None\<rparr>)))) of
        Inr returned \<Rightarrow> returned
      | Inl error_msg \<Rightarrow>
          if is_rate_limit error_msg then
            \<lparr>f_sql = None, f_changes = None, f_warnings = None, f_success = False,
             f_error = Some ''Rate limit exceeded. Try again in a few minutes.'',
             f_error_type = Some ''rate_limit''\<rparr>
          else
            \<lparr>f_sql = None, f_changes = None, f_warnings = None, f_success = False,
             f_error = Some error_msg, f_error_type = None\<rparr>)"
  by (simp add: validate_and_improve_query_def models_generate_content_def answer_def
      and_then_def Let_def split: sum.splits)

text \<open>
  Claim C5, as the code has it. For a payload that contains no run of three
  backticks and that \<open>json.loads\<close> decodes alike with and without surrounding
  whitespace, a response that wraps the payload in a \<open>```json\<close> fence or in a plain
  fence gives the same result as the bare payload, in \<open>generate_sql\<close> and in
  \<open>validate_and_improve_query\<close>.
\<close>

theorem fenced_payload_parsed_alike:
  assumes "\<not> contains ''```'' payload"
    and "loads env (strip payload) = loads env payload"
  shows "fst (generate_sql (env\<lparr>generate_content := answer (fenced_json payload)\<rparr>) q w)
           = fst (generate_sql (env\<lparr>generate_content := answer payload\<rparr>) q w)
       \<and> fst (generate_sql (env\<lparr>generate_content := answer (fenced payload)\<rparr>) q w)
           = fst (generate_sql (env\<lparr>generate_content := answer payload\<rparr>) q w)
       \<and> fst (validate_and_improve_query
                (env\<lparr>generate_content := answer (fenced_json payload)\<rparr>) sql m w)
           = fst (validate_and_improve_query (env\<lparr>generate_content := answer payload\<rparr>) sql m w)
       \<and> fst (validate_and_improve_query
                (env\<lparr>generate_content := answer (fenced payload)\<rparr>) sql m w)
           = fst (validate_and_improve_query (env\<lparr>generate_content := answer payload\<rparr>) sql m w)"
proof -
  have "and_then (remove_code_block (fenced_json payload)) (loads env)
          = and_then (remove_code_block payload) (loads env)"
    and "and_then (remove_code_block (fenced payload)) (loads env)
          = and_then (remove_code_block payload) (loads env)"
    using assms
    by (simp_all add: remove_code_block_fenced_json remove_code_block_fenced
        remove_code_block_plain and_then_def)
  then show ?thesis
    by (simp only: generate_sql_of_answer validate_and_improve_query_of_answer)
qed


text \<open>
  The claim fails for every payload: the search for fences does not know where the
  payload's own strings begin and end. For the payload
  \<open>{"sql": "```{}```"}\<close> the bare response is cut down to \<open>{}\<close> and gives a
  success, the fenced response is cut down to \<open>{"sql": "\<close> and gives a failure.
\<close>

lemma remove_code_block_fence_in_payload:
  \<open>remove_code_block fence_in_payload = Inr ''{}''\<close>
proof -
  have a: "\<not> contains ''```json'' fence_in_payload" "contains ''```'' fence_in_payload"
    by (simp_all add: fence_in_payload_def)
  have b: \<open>split_parts ''```'' ''{}'' = [''{}'']\<close>
    by (subst split_parts.simps) simp
  show ?thesis
    unfolding remove_code_block_def
    by (simp add: a split_def split_fence_in_payload b and_then_def strip_def isspace_def item_def)
qed

lemma remove_code_block_fenced_fence_in_payload:
  \<open>remove_code_block (fenced_json fence_in_payload) = Inr ''{"sql": "''\<close>
proof -
  have a: "contains ''```json'' (fenced_json fence_in_payload)"
    by (simp add: fence_in_payload_def fenced_json_def)
  show ?thesis
    unfolding remove_code_block_def
    by (simp add: a split_def split_fenced_fence_in_payload split_fenced_rest [simplified]
        and_then_def strip_def isspace_def item_def)
qed

theorem fenced_payload_counterexample:
  \<open>sample_loads fence_in_payload = Inr (JObj [(''sql'', JStr ''```{}```'')])
   \<and> q_success (fst (generate_sql (sample_env (answer fence_in_payload) no_database)
                       ''top 5 products by revenue'' fresh))
   \<and> \<not> q_success (fst (generate_sql
                       (sample_env (answer (fenced_json fence_in_payload)) no_database)
                       ''top 5 products by revenue'' fresh))\<close>
proof -
  have e: "sample_env (answer t) no_database
             = (sample_env (answer t) no_database)\<lparr>generate_content := answer t\<rparr>" for t
    by (simp add: sample_env_def)
  have l: "loads (sample_env x no_database) = sample_loads" for x
    by (simp add: sample_env_def)
  have 1: "sample_loads fence_in_payload = Inr (JObj [(''sql'', JStr ''```{}```'')])"
    by (simp add: sample_loads_def fence_in_payload_def)
  have 2: "q_success (fst (generate_sql (sample_env (answer fence_in_payload) no_database)
                       ''top 5 products by revenue'' fresh))"
    by (subst e, simp only: generate_sql_of_answer remove_code_block_fence_in_payload l)
       (simp add: and_then_def sample_loads_def get_stripped_def get_def value_strip_def
          strip_def)
  have 3: "\<not> q_success (fst (generate_sql
                       (sample_env (answer (fenced_json fence_in_payload)) no_database)
                       ''top 5 products by revenue'' fresh))"
    by (subst e, simp only: generate_sql_of_answer remove_code_block_fenced_fence_in_payload l)
       (simp add: and_then_def sample_loads_def is_rate_limit_def)
  from 1 2 3 show ?thesis by simp
qed

theorem fenced_payload_parsed_alike_witness:
  "\<not> contains ''```'' plain_payload
   \<and> sample_loads (strip plain_payload) = sample_loads plain_payload
   \<and> fst (generate_sql ((sample_env quota_exhausted no_database)
              \<lparr>generate_content := answer (fenced_json plain_payload)\<rparr>)
            ''top 5 products by revenue'' fresh)
       = fst (generate_sql ((sample_env quota_exhausted no_database)
              \<lparr>generate_content := answer plain_payload\<rparr>)
            ''top 5 products by revenue'' fresh)
   \<and> fst (validate_and_improve_query ((sample_env quota_exhausted no_database)
              \<lparr>generate_content := answer (fenced plain_payload)\<rparr>)
            ''SELECT x'' (Some ''column x does not exist'') fresh)
       = fst (validate_and_improve_query ((sample_env quota_exhausted no_database)
              \<lparr>generate_content := answer plain_payload\<rparr>)
            ''SELECT x'' (Some ''column x does not exist'') fresh)"
proof -
  have a: "\<not> contains ''```'' plain_payload" by (simp add: plain_payload_def)
  have s: "strip plain_payload = plain_payload"
    by (simp add: plain_payload_def strip_def isspace_def)
  then have b: "loads (sample_env quota_exhausted no_database) (strip plain_payload)
              = loads (sample_env quota_exhausted no_database) plain_payload" by simp
  from fenced_payload_parsed_alike [OF a b] a s show ?thesis by simp
qed

section \<open>The throttle of the Corrector\<close>

lemma wait_for_rate_limit_fields:
  "clock (wait_for_rate_limit env w) =
     (if clock w - qg_last_request_time w < min_delay
      then clock w + (min_delay - (clock w - qg_last_request_time w)) + oversleep env
      else clock w)"
  "qg_last_request_time (wait_for_rate_limit env w) = clock (wait_for_rate_limit env w)"
  by (simp_all add: wait_for_rate_limit_def sleep_def record_event_def Let_def)

lemma validate_and_improve_query_world:
  "snd (validate_and_improve_query env sql m w) =
     (record_event
        (Completion (clock (wait_for_rate_limit env (record_event (Corrector sql m) w)))
           model_id (review_prompt sql m))
        (wait_for_rate_limit env (record_event (Corrector sql m) w)))
     \<lparr>clock := clock (wait_for_rate_limit env (record_event (Corrector sql m) w))
         + latency env (trace (wait_for_rate_limit env (record_event (Corrector sql m) w)))\<rparr>"
  by (simp add: snd_validate_and_improve_query models_generate_content_def)

lemma corrector_call_timing:
  assumes "0 \<le> oversleep env"
  shows "trace (snd (validate_and_improve_query env sql m w)) =
           trace w @ [Corrector sql m]
           @ (if clock w - qg_last_request_time w < min_delay
              then [Sleep (min_delay - (clock w - qg_last_request_time w))] else [])
           @ [Completion (qg_last_request_time (snd (validate_and_improve_query env sql m w)))
                model_id (review_prompt sql m)]"
    and "qg_last_request_time w + min_delay
           \<le> qg_last_request_time (snd (validate_and_improve_query env sql m w))"
    and "clock w \<le> qg_last_request_time (snd (validate_and_improve_query env sql m w))"
    and "clock w - qg_last_request_time w < min_delay \<Longrightarrow>
           clock w + (min_delay - (clock w - qg_last_request_time w))
             \<le> qg_last_request_time (snd (validate_and_improve_query env sql m w))"
    and "0 \<le> latency env (trace (wait_for_rate_limit env (record_event (Corrector sql m) w)))
          \<Longrightarrow> qg_last_request_time (snd (validate_and_improve_query env sql m w))
             \<le> clock (snd (validate_and_improve_query env sql m w))"
  using assms
  by (simp_all add: validate_and_improve_query_world wait_for_rate_limit_fields
      trace_wait_for_rate_limit record_event_def)

text \<open>
  Claim C6. Times are exact numbers and \<open>time.sleep\<close> returns after at least the
  time asked for. Let a Corrector call be made in \<open>w\<close> and the next one in \<open>w'\<close>,
  where the timestamp is the one the first call left and less than \<open>min_delay\<close>
  (5 seconds) has elapsed since. Then the second call sleeps for \<open>min_delay\<close> minus
  the elapsed time before its completion request, which is therefore issued at
  least that much later than the call began; each request is issued at the time the
  call records as its timestamp, and the two requests are at least \<open>min_delay\<close>
  apart.
\<close>

theorem corrector_throttle:
  assumes "0 \<le> oversleep env"
    and "qg_last_request_time w' = qg_last_request_time (snd (validate_and_improve_query env sql m w))"
    and "clock w' - qg_last_request_time w' < min_delay"
  shows "trace (snd (validate_and_improve_query env sql' m' w')) =
           trace w' @ [Corrector sql' m',
                       Sleep (min_delay - (clock w' - qg_last_request_time w')),
                       Completion (qg_last_request_time (snd (validate_and_improve_query env sql' m' w')))
                         model_id (review_prompt sql' m')]
       \<and> clock w' + (min_delay - (clock w' - qg_last_request_time w'))
           \<le> qg_last_request_time (snd (validate_and_improve_query env sql' m' w'))
       \<and> last (trace (snd (validate_and_improve_query env sql m w))) =
           Completion (qg_last_request_time (snd (validate_and_improve_query env sql m w)))
             model_id (review_prompt sql m)
       \<and> qg_last_request_time (snd (validate_and_improve_query env sql m w)) + min_delay
           \<le> qg_last_request_time (snd (validate_and_improve_query env sql' m' w'))"
proof -
  from corrector_call_timing(1) [OF assms(1), of sql' m' w'] assms(3)
  have 1: "trace (snd (validate_and_improve_query env sql' m' w')) =
           trace w' @ [Corrector sql' m',
                       Sleep (min_delay - (clock w' - qg_last_request_time w')),
                       Completion (qg_last_request_time (snd (validate_and_improve_query env sql' m' w')))
                         model_id (review_prompt sql' m')]"
    by simp
  from corrector_call_timing(4) [OF assms(1) assms(3), of sql' m']
  have 2: "clock w' + (min_delay - (clock w' - qg_last_request_time w'))
           \<le> qg_last_request_time (snd (validate_and_improve_query env sql' m' w'))" .
  from corrector_call_timing(1) [OF assms(1), of sql m w]
  have 3: "last (trace (snd (validate_and_improve_query env sql m w))) =
           Completion (qg_last_request_time (snd (validate_and_improve_query env sql m w)))
             model_id (review_prompt sql m)"
    by simp
  from corrector_call_timing(2) [OF assms(1), of w' sql' m'] assms(2)
  have 4: "qg_last_request_time (snd (validate_and_improve_query env sql m w)) + min_delay
           \<le> qg_last_request_time (snd (validate_and_improve_query env sql' m' w'))"
    by simp
  from 1 2 3 4 show ?thesis by simp
qed


theorem corrector_throttle_witness:
  "0 \<le> oversleep (sample_env quota_exhausted no_database)
   \<and> clock ((snd (validate_and_improve_query (sample_env quota_exhausted no_database)
                  ''SELECT x'' (Some ''column x does not exist'') fresh))\<lparr>clock := 1003\<rparr>)
       - qg_last_request_time (snd (validate_and_improve_query
            (sample_env quota_exhausted no_database)
            ''SELECT x'' (Some ''column x does not exist'') fresh)) = 3
   \<and> trace (snd (validate_and_improve_query (sample_env quota_exhausted no_database)
         ''SELECT y'' (Some ''column y does not exist'')
         ((snd (validate_and_improve_query (sample_env quota_exhausted no_database)
                  ''SELECT x'' (Some ''column x does not exist'') fresh))\<lparr>clock := 1003\<rparr>)))
       = [Corrector ''SELECT x'' (Some ''column x does not exist''),
          Completion 1000 model_id (review_prompt ''SELECT x'' (Some ''column x does not exist'')),
          Corrector ''SELECT y'' (Some ''column y does not exist''),
          Sleep 2,
          Completion 1005 model_id (review_prompt ''SELECT y'' (Some ''column y does not exist''))]"
proof -
  let ?E = "sample_env quota_exhausted no_database"
  let ?w1 = "snd (validate_and_improve_query ?E ''SELECT x'' (Some ''column x does not exist'') fresh)"
  let ?w' = "?w1\<lparr>clock := 1003\<rparr>"
  have ov: "oversleep ?E = 0" by (simp add: sample_env_def)
  then have o: "0 \<le> oversleep ?E" by simp
  have t: "qg_last_request_time ?w' = qg_last_request_time ?w1" by simp
  have l: "qg_last_request_time ?w1 = 1000" "trace ?w1 =
      [Corrector ''SELECT x'' (Some ''column x does not exist''),
       Completion 1000 model_id (review_prompt ''SELECT x'' (Some ''column x does not exist''))]"
    by (simp_all add: validate_and_improve_query_world wait_for_rate_limit_fields
        trace_wait_for_rate_limit record_event_def fresh_def min_delay_def sample_env_def)
  then have e: "clock ?w' - qg_last_request_time ?w' < min_delay"
    by (simp add: min_delay_def)
  have t2: "qg_last_request_time (snd (validate_and_improve_query ?E ''SELECT y''
              (Some ''column y does not exist'') ?w')) = 1005"
    using ov
    by (simp add: validate_and_improve_query_world [of _ "''SELECT y''"]
        wait_for_rate_limit_fields record_event_def l min_delay_def)
  from corrector_throttle [OF o t e, of "''SELECT y''" "Some ''column y does not exist''"] l o t2
  show ?thesis
    by (simp add: min_delay_def)
qed

section \<open>The Generator and the rate limit\<close>

text \<open>\<open>generate_sql\<close> never touches the timestamp.\<close>

lemma generate_sql_keeps_timestamp:
  "qg_last_request_time (snd (generate_sql env q w)) = qg_last_request_time w"
  by (simp add: snd_generate_sql models_generate_content_def record_event_def)

text \<open>
  Claim C7 does not hold of \<open>generate_sql\<close>, which issues its completion request
  without calling \<open>_wait_for_rate_limit\<close>: a generation started one second after
  a Corrector's request is sent at once, and the timestamp stays what the Corrector
  left; after a generation in the fresh world the timestamp is still the initial 0.
\<close>

theorem generate_sql_skips_throttle:
  "trace (snd (generate_sql (sample_env select_one no_database) ''top 5 products by revenue''
            (snd (validate_and_improve_query (sample_env select_one no_database)
                    ''SELECT x'' (Some ''column x does not exist'') fresh))))
     = [Corrector ''SELECT x'' (Some ''column x does not exist''),
        Completion 1000 model_id (review_prompt ''SELECT x'' (Some ''column x does not exist'')),
        Completion 1001 model_id (SqlPrompt ''top 5 products by revenue'')]
   \<and> qg_last_request_time
        (snd (generate_sql (sample_env select_one no_database) ''top 5 products by revenue''
            (snd (validate_and_improve_query (sample_env select_one no_database)
                    ''SELECT x'' (Some ''column x does not exist'') fresh)))) = 1000
   \<and> qg_last_request_time
        (snd (generate_sql (sample_env select_one no_database) ''top 5 products by revenue''
            fresh)) = 0"
  by (simp add: snd_generate_sql models_generate_content_def validate_and_improve_query_world
      wait_for_rate_limit_fields trace_wait_for_rate_limit record_event_def fresh_def
      min_delay_def sample_env_def)

section \<open>What a run records and leaves behind\<close>

lemma kept_refl [simp]: "kept path w w"
  by (simp add: kept_def)

lemma kept_trans: "kept path w w1 \<Longrightarrow> kept path w1 w2 \<Longrightarrow> kept path w w2"
  by (auto simp: kept_def)


lemma kept_execute_query: "kept path w (snd (execute_query env sql w))"
  by (simp add: kept_def execute_query_def record_event_def)

lemma kept_validate_and_improve_query:
  "kept path w (snd (validate_and_improve_query env sql m w))"
  by (simp add: kept_def validate_and_improve_query_world wait_for_rate_limit_def sleep_def
      record_event_def Let_def)

lemma kept_generate_executive_summary:
  "kept path w (snd (generate_executive_summary env q df a w))"
proof (cases "summary_prompt env q df a")
  case (Inl e)
  then show ?thesis by (simp add: generate_executive_summary_def)
next
  case (Inr p)
  have "snd (generate_executive_summary env q df a w) =
          snd (models_generate_content env summary_model_id (SummaryPrompt p)
                 (summary_wait_for_rate_limit env w))"
    using Inr
    by (simp add: generate_executive_summary_def Let_def split_beta split: sum.splits)
  then show ?thesis
    by (simp add: kept_def models_generate_content_def summary_wait_for_rate_limit_def
        sleep_def record_event_def Let_def)
qed

lemma outputs_path:
  "path_join ''../outputs'' (CHR ''a'' # rest) = ''../outputs/a'' @ rest"
  "path_join ''../outputs'' (CHR ''c'' # rest) = ''../outputs/c'' @ rest"
  by (simp_all add: path_join_def suffix_def)

lemma kept_write_outputs:
  assumes "\<not> prefix ''../outputs/'' path"
  shows "kept path w (write_outputs (''analysis_'' @ ts) written w)"
proof (induction written arbitrary: w)
  case Nil
  show ?case by (simp add: write_outputs_def)
next
  case (Cons x xs)
  obtain rest content where x: "x = (rest, content)" by (cases x)
  let ?p = "path_join output_dir ((''analysis_'' @ ts) @ rest)"
  let ?w1 = "(record_event (FileWritten ?p) w)\<lparr>files := (files w)(?p \<mapsto> content)\<rparr>"
  have step: "write_outputs (''analysis_'' @ ts) (x # xs) w
                = write_outputs (''analysis_'' @ ts) xs ?w1"
    by (simp add: write_outputs_def x)
  have "?p = ''../outputs/analysis_'' @ ts @ rest"
    by (simp add: output_dir_def outputs_path)
  then have "prefix ''../outputs/'' ?p" by simp
  with assms have "?p \<noteq> path" by auto
  then have "kept path w ?w1" by (simp add: kept_def record_event_def)
  from kept_trans [OF this Cons.IH [of ?w1]] show ?case
    by (simp only: step)
qed

lemma kept_generate_eda_report:
  assumes "\<not> prefix ''../outputs/'' path"
  shows "kept path w (snd (generate_eda_report env df q (''analysis_'' @ ts) w))"
  using kept_write_outputs [OF assms]
  by (simp add: generate_eda_report_def split_beta)

lemma kept_write_file:
  assumes "path' \<noteq> path"
  shows "kept path w (snd (write_file env path' texts w))"
  using assms
  by (cases "open_error env path'")
     (simp_all add: write_file_def split_beta kept_def record_event_def)

lemma kept_save_report:
  assumes "\<not> prefix ''../outputs/'' path"
  shows "kept path w (snd (save_report env r (''complete_report_'' @ ts @ ''.md'') w))"
proof -
  let ?p = "path_join ''../outputs'' (''complete_report_'' @ ts @ ''.md'')"
  have "?p = ''../outputs/complete_report_'' @ ts @ ''.md''"
    by (simp add: outputs_path)
  then have "prefix ''../outputs/'' ?p" by simp
  with assms have ne: "?p \<noteq> path" by auto
  have "snd (save_report env r (''complete_report_'' @ ts @ ''.md'') w)
          = snd (write_file env ?p [r] w)"
    by (simp add: save_report_def Let_def split_beta)
  with kept_write_file [OF ne, of w env "[r]"] show ?thesis by (simp only:)
qed

lemma report_outcome:
  assumes "\<not> prefix ''../outputs/'' path"
  shows "kept path w (snd (report env q sql df res w))
       \<and> ((\<exists>e. fst (report env q sql df res w) = Inl e)
          \<or> (\<exists>d a s p. df = Some d \<and> fst (report env q sql df res w) =
                Inr (res\<lparr>row_count := Some (length (rows d)), dataframe := Some d,
                         eda_results := Some a, executive_summary := Some s,
                         report_file := Some p, success := True\<rparr>)))"
proof (cases df)
  case None
  then show ?thesis by (simp add: report_def)
next
  case (Some d)
  obtain eo w1 where g: "generate_eda_report env d q (''analysis_'' @ timestamp res) w = (eo, w1)"
    by (cases "generate_eda_report env d q (''analysis_'' @ timestamp res) w")
  have k1: "kept path w w1"
    using kept_generate_eda_report [OF assms, of w env d q "timestamp res"]
    by (simp only: g snd_conv)
  show ?thesis
  proof (cases eo)
    case (Inl e)
    with Some g k1 show ?thesis by (simp add: report_def)
  next
    case analysis: (Inr a)
    obtain so w2 where s: "generate_executive_summary env q d a w1 = (so, w2)"
      by (cases "generate_executive_summary env q d a w1")
    have "kept path w1 w2"
      using kept_generate_executive_summary [of path w1 env q d a]
      by (simp only: s snd_conv)
    with k1 have k2: "kept path w w2" by (rule kept_trans)
    show ?thesis
    proof (cases so)
      case (Inl e)
      with Some g analysis s k2 show ?thesis by (simp add: report_def)
    next
      case summary: (Inr summary)
      show ?thesis
      proof (cases "detailed_report env q sql d a summary")
        case (Inl e)
        with Some g analysis s summary k2 show ?thesis by (simp add: report_def)
      next
        case full: (Inr full_report)
        obtain sv w3 where v: "save_report env full_report
            (''complete_report_'' @ timestamp res @ ''.md'') w2 = (sv, w3)"
          by (cases "save_report env full_report
                (''complete_report_'' @ timestamp res @ ''.md'') w2")
        have "kept path w2 w3"
          using kept_save_report [OF assms, of w2 env full_report "timestamp res"]
          by (simp only: v snd_conv)
        with k2 have k3: "kept path w w3" by (rule kept_trans)
        show ?thesis
        proof (cases sv)
          case (Inl e)
          with Some g analysis s summary full v k3 show ?thesis by (simp add: report_def)
        next
          case saved: (Inr p)
          with Some g analysis s summary full v
          have "report env q sql df res w =
                  (Inr (res\<lparr>row_count := Some (length (rows d)), dataframe := Some d,
                           eda_results := Some a, executive_summary := Some summary,
                           report_file := Some p, success := True\<rparr>), w3)"
            by (simp add: report_def)
          with Some k3 show ?thesis by (simp only: fst_conv snd_conv) blast
        qed
      qed
    qed
  qed
qed

lemma truthy_Some: "truthy err \<Longrightarrow> \<exists>e. e \<noteq> [] \<and> err = Some e"
  by (cases err) (simp_all add: truthy_def)

lemma kept_prefix: "kept path w w' \<Longrightarrow> prefix (trace w) (trace w')"
  by (simp add: kept_def)

lemma report_finished:
  assumes "\<not> prefix ''../outputs/'' path"
  shows "kept path w (snd (report env q sql df res w))"
    and "finished res (fst (report env q sql df res w))"
  using report_outcome [OF assms, of w env q sql df res]
  by (simp_all add: finished_def) blast

lemma execute_and_repair_outcome:
  assumes "\<not> prefix ''../outputs/'' path"
  shows "kept path w (snd (execute_and_repair env q sql res w))"
    and "prefix (trace w @ [Executor sql]) (trace (snd (execute_and_repair env q sql res w)))"
    and "repaired res (fst (execute_and_repair env q sql res w))"
proof -
  obtain ex w1 where x: "execute_query env sql w = (ex, w1)"
    by (cases "execute_query env sql w")
  have kx: "kept path w w1"
    using kept_execute_query [of path w env sql] by (simp only: x snd_conv)
  have tx: "trace w1 = trace w @ [Executor sql]"
    using trace_execute_query [of env sql w] by (simp only: x snd_conv)
  have px: "prefix (trace w @ [Executor sql]) (trace w1)" by (simp only: tx prefix_order.refl)
  have "kept path w (snd (execute_and_repair env q sql res w))
      \<and> prefix (trace w @ [Executor sql]) (trace (snd (execute_and_repair env q sql res w)))
      \<and> repaired res (fst (execute_and_repair env q sql res w))"
  proof (cases ex)
    case (Inl e)
    with x have eq: "execute_and_repair env q sql res w = (Inl e, w1)"
      by (simp add: execute_and_repair_def)
    have "repaired res (Inl e)" by (simp add: repaired_def finished_def)
    with kx px show ?thesis by (simp only: eq fst_conv snd_conv simp_thms)
  next
    case (Inr pr)
    obtain df err where pr: "pr = (df, err)" by (cases pr)
    show ?thesis
    proof (cases "truthy err")
      case False
      with x Inr pr have eq: "execute_and_repair env q sql res w = report env q sql df res w1"
        by (simp add: execute_and_repair_def)
      have k: "kept path w1 (snd (report env q sql df res w1))"
        by (rule report_finished(1) [OF assms])
      have f: "finished res (fst (report env q sql df res w1))"
        by (rule report_finished(2) [OF assms])
      from kept_trans [OF kx k] have 1: "kept path w (snd (execute_and_repair env q sql res w))"
        by (simp only: eq)
      from px kept_prefix [OF k] have 2: "prefix (trace w @ [Executor sql])
          (trace (snd (execute_and_repair env q sql res w)))"
        unfolding eq by (rule prefix_order.trans)
      from f have 3: "repaired res (fst (execute_and_repair env q sql res w))"
        by (simp only: eq repaired_def simp_thms)
      from 1 2 3 show ?thesis by simp
    next
      case True
      then obtain e where e: "e \<noteq> []" "err = Some e"
        by (auto dest: truthy_Some)
      obtain fr w2 where f: "validate_and_improve_query env sql err w1 = (fr, w2)"
        by (cases "validate_and_improve_query env sql err w1")
      have kxf: "kept path w1 w2"
        using kept_validate_and_improve_query [of path w1 env sql err]
        by (simp only: f snd_conv)
      with kx have kf: "kept path w w2" by (rule kept_trans)
      from px kept_prefix [OF kxf]
      have pf: "prefix (trace w @ [Executor sql]) (trace w2)"
        by (rule prefix_order.trans)
      show ?thesis
      proof (cases "f_success fr")
        case False
        with x Inr pr True f have eq: "execute_and_repair env q sql res w
            = (Inr (res\<lparr>error := err\<rparr>), w2)"
          by (simp add: execute_and_repair_def)
        have "repaired res (Inr (res\<lparr>error := err\<rparr>))"
          unfolding repaired_def using e by blast
        with kf pf show ?thesis by (simp only: eq fst_conv snd_conv simp_thms)
      next
        case succ: True
        show ?thesis
        proof (cases "f_sql fr")
          case None
          with x Inr pr True f succ
          have eq: "execute_and_repair env q sql res w = (Inl ''TypeError'', w2)"
            by (simp add: execute_and_repair_def)
          have "repaired res (Inl ''TypeError'')"
            by (simp add: repaired_def finished_def)
          with kf pf show ?thesis by (simp only: eq fst_conv snd_conv simp_thms)
        next
          case (Some sql')
          obtain ey w3 where y: "execute_query env sql' w2 = (ey, w3)"
            by (cases "execute_query env sql' w2")
          have kfy: "kept path w2 w3"
            using kept_execute_query [of path w2 env sql'] by (simp only: y snd_conv)
          with kf have ky: "kept path w w3" by (rule kept_trans)
          from pf kept_prefix [OF kfy]
          have py: "prefix (trace w @ [Executor sql]) (trace w3)"
            by (rule prefix_order.trans)
          show ?thesis
          proof (cases ey)
            case raised: (Inl e')
            with x Inr pr True f succ Some y
            have eq: "execute_and_repair env q sql res w = (Inl e', w3)"
              by (simp add: execute_and_repair_def)
            have "repaired res (Inl e')" by (simp add: repaired_def finished_def)
            with ky py show ?thesis by (simp only: eq fst_conv snd_conv simp_thms)
          next
            case returned: (Inr pr')
            obtain df' err' where pr': "pr' = (df', err')" by (cases pr')
            show ?thesis
            proof (cases "truthy err'")
              case again: True
              then obtain e' where e': "e' \<noteq> []" "err' = Some e'"
                by (auto dest: truthy_Some)
              from x Inr pr True f succ Some y returned pr' again
              have eq: "execute_and_repair env q sql res w
                  = (Inr (res\<lparr>sql_query := Some sql', error := err'\<rparr>), w3)"
                by (simp add: execute_and_repair_def)
              have "repaired res (Inr (res\<lparr>sql_query := Some sql', error := err'\<rparr>))"
                unfolding repaired_def using e' by blast
              with ky py show ?thesis by (simp only: eq fst_conv snd_conv simp_thms)
            next
              case False
              with x Inr pr True f succ Some y returned pr'
              have eq: "execute_and_repair env q sql res w
                  = report env q sql' df' (res\<lparr>sql_query := Some sql'\<rparr>) w3"
                by (simp add: execute_and_repair_def)
              let ?R = "report env q sql' df' (res\<lparr>sql_query := Some sql'\<rparr>) w3"
              have k: "kept path w3 (snd ?R)"
                by (rule report_finished(1) [OF assms])
              have fin: "finished (res\<lparr>sql_query := Some sql'\<rparr>) (fst ?R)"
                by (rule report_finished(2) [OF assms])
              from kept_trans [OF ky k] have 1: "kept path w (snd ?R)" .
              from py kept_prefix [OF k]
              have 2: "prefix (trace w @ [Executor sql]) (trace (snd ?R))"
                by (rule prefix_order.trans)
              from fin have 3: "repaired res (fst ?R)"
                unfolding repaired_def by blast
              from 1 2 3 show ?thesis by (simp only: eq simp_thms)
            qed
          qed
        qed
      qed
    qed
  qed
  then show "kept path w (snd (execute_and_repair env q sql res w))"
    and "prefix (trace w @ [Executor sql]) (trace (snd (execute_and_repair env q sql res w)))"
    and "repaired res (fst (execute_and_repair env q sql res w))"
    by simp_all
qed

lemma sql_path_eq: "sql_path ts = ''../sql_queries/query_'' @ ts @ ''.sql''"
  by (simp add: sql_path_def path_join_def suffix_def)

lemma sql_path_not_output: "\<not> prefix ''../outputs/'' (sql_path ts)"
  by (simp add: sql_path_eq)

lemma repaired_fields:
  assumes "repaired r (Inr res)" and "\<not> success r" and "dataframe r = None"
    and "eda_results r = None" and "executive_summary r = None" and "report_file r = None"
    and "error r = None"
  shows "(success res \<and> dataframe res \<noteq> None \<and> eda_results res \<noteq> None
            \<and> executive_summary res \<noteq> None \<and> report_file res \<noteq> None \<and> error res = None)
       \<or> (\<not> success res \<and> dataframe res = None \<and> eda_results res = None
            \<and> executive_summary res = None \<and> report_file res = None)"
  using assms unfolding repaired_def finished_def by auto

text \<open>
  A run that returns after a successful generation returns what execution and
  repair returned, started with the generated SQL recorded.
\<close>

lemma run_analysis_returned:
  assumes "fst (run_analysis env q b w) = Inr res"
    and "q_success (fst (generate_sql env q w))"
  shows "\<exists>sql explanation r w2.
           fst (execute_and_repair env q sql r w2) = Inr res
         \<and> (r = (new_results env q)\<lparr>sql_query := Some sql, sql_explanation := Some explanation,
                  sql_file := Some (sql_path (strftime_now env))\<rparr>
            \<or> r = (new_results env q)\<lparr>sql_query := Some sql, sql_explanation := Some explanation\<rparr>)"
proof (cases "q_sql (fst (generate_sql env q w))")
  case None
  with assms show ?thesis by (simp add: run_analysis_unfold)
next
  case sql: (Some sql)
  show ?thesis
  proof (cases "q_explanation (fst (generate_sql env q w))")
    case None
    with assms sql show ?thesis by (simp add: run_analysis_unfold)
  next
    case expl: (Some explanation)
    let ?w1 = "snd (generate_sql env q w)"
    let ?r = "(new_results env q)\<lparr>sql_query := Some sql, sql_explanation := Some explanation\<rparr>"
    show ?thesis
    proof (cases b)
      case False
      with assms sql expl have "fst (execute_and_repair env q sql ?r ?w1) = Inr res"
        by (simp add: run_analysis_unfold)
      then show ?thesis by blast
    next
      case save: True
      let ?f = "write_file env (sql_path (strftime_now env))
                  (sql_file_texts (strftime_now env) q explanation sql) ?w1"
      let ?r' = "(new_results env q)\<lparr>sql_query := Some sql, sql_explanation := Some explanation,
                   sql_file := Some (sql_path (strftime_now env))\<rparr>"
      show ?thesis
      proof (cases "fst ?f")
        case (Some e)
        with assms sql expl save show ?thesis by (simp add: run_analysis_unfold)
      next
        case None
        with assms sql expl save have "fst (execute_and_repair env q sql ?r' (snd ?f)) = Inr res"
          by (simp add: run_analysis_unfold)
        then show ?thesis by blast
      qed
    qed
  qed
qed

text \<open>
  Claim C9, as the code has it. A run that returns either reports success, and then
  a table, an analysis, an executive summary text and a report file are recorded and
  no error is, or it reports no success, and then none of the four is recorded.
\<close>

theorem run_analysis_outcome:
  assumes "fst (run_analysis env q save_sql w) = Inr res"
  shows "(success res \<and> dataframe res \<noteq> None \<and> eda_results res \<noteq> None
            \<and> executive_summary res \<noteq> None \<and> report_file res \<noteq> None \<and> error res = None)
       \<or> (\<not> success res \<and> dataframe res = None \<and> eda_results res = None
            \<and> executive_summary res = None \<and> report_file res = None)"
proof (cases "q_success (fst (generate_sql env q w))")
  case False
  with assms have "res = new_results env q" by (simp add: run_analysis_unfold)
  then show ?thesis by (simp add: new_results_def)
next
  case True
  from run_analysis_returned [OF assms True] obtain sql explanation r w2 where
    run: "fst (execute_and_repair env q sql r w2) = Inr res"
    and r: "r = (new_results env q)\<lparr>sql_query := Some sql, sql_explanation := Some explanation,
                sql_file := Some (sql_path (strftime_now env))\<rparr>
            \<or> r = (new_results env q)\<lparr>sql_query := Some sql, sql_explanation := Some explanation\<rparr>"
    by blast
  from execute_and_repair_outcome(3) [OF sql_path_not_output, of r env q sql w2] run
  have "repaired r (Inr res)" by simp
  moreover from r have "\<not> success r" "dataframe r = None" "eda_results r = None"
    "executive_summary r = None" "report_file r = None" "error r = None"
    by (auto simp: new_results_def)
  ultimately show ?thesis by (rule repaired_fields)
qed





lemma sql_file_write_raises:
  assumes "q_success (fst (generate_sql env q w))"
    and "q_sql (fst (generate_sql env q w)) = Some sql"
    and "q_explanation (fst (generate_sql env q w)) = Some explanation"
    and "open_error env (sql_path (strftime_now env)) = None"
    and "write_texts env (sql_path (strftime_now env))
           (sql_file_texts (strftime_now env) q explanation sql) [] = (Some e, written)"
  shows "run_analysis env q True w =
           (Inl e, (record_event (FileWritten (sql_path (strftime_now env)))
                      (snd (generate_sql env q w)))
                   \<lparr>files := (files (snd (generate_sql env q w)))
                              (sql_path (strftime_now env) \<mapsto> written)\<rparr>)"
  using assms by (simp add: run_analysis_unfold write_file_def)

lemma generate_sql_plain_payload:
  assumes "\<And>h. generate_content env h model_id (SqlPrompt q) = Inr plain_payload"
    and "loads env = sample_loads"
  shows "fst (generate_sql env q w) =
           \<lparr>q_sql = Some ''SELECT 1'', q_explanation = Some ''one'', q_success = True,
            q_error = None, q_error_type = None\<rparr>"
proof -
  have "\<not> contains ''```'' plain_payload" by (simp add: plain_payload_def)
  then have "remove_code_block plain_payload = Inr plain_payload"
    by (rule remove_code_block_plain)
  then show ?thesis
    using assms
    by (simp add: generate_sql_def models_generate_content_def and_then_def Let_def
        sample_loads_def plain_payload_def get_stripped_def get_def value_strip_def
        strip_def isspace_def)
qed


lemma degraded_run:
  "fst (run_analysis (sample_env summary_unavailable one_row) ''top 5 products by revenue''
          False fresh) =
     Inr \<lparr>success = True, query = ''top 5 products by revenue'',
          timestamp = ''2024-02-08_10-30-00'', sql_query = Some ''SELECT 1'',
          sql_explanation = Some ''one'', sql_file = None, error = None,
          row_count = Some 1, dataframe = Some sample_frame,
          eda_results = Some \<lparr>insights = [], visualization_files = [], tableau_files = []\<rparr>,
          executive_summary = Some ''Error generating summary: 503 UNAVAILABLE'',
          report_file = Some ''../outputs/complete_report_2024-02-08_10-30-00.md''\<rparr>"
proof -
  let ?E = "sample_env summary_unavailable one_row"
  let ?Q = "''top 5 products by revenue''"
  have g: "fst (generate_sql ?E ?Q fresh) =
           \<lparr>q_sql = Some ''SELECT 1'', q_explanation = Some ''one'', q_success = True,
            q_error = None, q_error_type = None\<rparr>"
    by (rule generate_sql_plain_payload)
       (simp_all add: sample_env_def summary_unavailable_def)
  have env: "read_sql ?E = one_row" "generate_content ?E = summary_unavailable"
    "strftime_now ?E = ''2024-02-08_10-30-00''" "open_error ?E = (\<lambda>p. None)"
    "write_error ?E = (\<lambda>p t. None)"
    "eda ?E = (\<lambda>df q name. ([(''_report.txt'', ''=== Automated EDA Report ==='')],
                Inr \<lparr>insights = [], visualization_files = [], tableau_files = []\<rparr>))"
    "summary_prompt ?E = (\<lambda>q df a. Inr q)"
    "detailed_report ?E = (\<lambda>q sql df a summary. Inr summary)"
    by (simp_all add: sample_env_def)
  have rl: "\<not> is_rate_limit ''503 UNAVAILABLE''" by (simp add: is_rate_limit_def)
  show ?thesis
    by (simp add: run_analysis_unfold g execute_and_repair_def execute_query_def env
        one_row_def truthy_def report_def generate_eda_report_def
        generate_executive_summary_def summary_unavailable_def rl models_generate_content_def
        save_report_def write_file_def and_then_def path_join_def suffix_def
        new_results_def sample_frame_def Let_def split_beta)
qed

text \<open>
  The claim as stated fails: success says nothing about the summary step. When the
  completion call of the summary raises, \<open>generate_executive_summary\<close> returns an
  error text, the run records it as the executive summary and reports success.
\<close>

theorem degraded_success_counterexample:
  "\<not> isl (fst (run_analysis (sample_env summary_unavailable one_row)
                  ''top 5 products by revenue'' False fresh))
   \<and> success (projr (fst (run_analysis (sample_env summary_unavailable one_row)
                  ''top 5 products by revenue'' False fresh)))
   \<and> executive_summary (projr (fst (run_analysis (sample_env summary_unavailable one_row)
                  ''top 5 products by revenue'' False fresh)))
       = Some ''Error generating summary: 503 UNAVAILABLE''"
  by (simp add: degraded_run)

theorem run_analysis_outcome_witness:
  "\<not> isl (fst (run_analysis (sample_env summary_unavailable one_row)
                  ''top 5 products by revenue'' False fresh))
   \<and> success (projr (fst (run_analysis (sample_env summary_unavailable one_row)
                  ''top 5 products by revenue'' False fresh)))
   \<and> report_file (projr (fst (run_analysis (sample_env summary_unavailable one_row)
                  ''top 5 products by revenue'' False fresh))) \<noteq> None
   \<and> error (projr (fst (run_analysis (sample_env summary_unavailable one_row)
                  ''top 5 products by revenue'' False fresh))) = None"
  using run_analysis_outcome [OF degraded_run] by (simp add: degraded_run)

text \<open>
  After a successful generation, a run that returns without success has recorded the
  question, the SQL last attempted and the error of the last execution.
\<close>

lemma run_analysis_failure_after_generation:
  assumes "fst (run_analysis env q b w) = Inr res" and "\<not> success res"
    and "q_success (fst (generate_sql env q w))"
  shows "query res = q \<and> sql_query res \<noteq> None \<and> error res \<noteq> None"
proof -
  from run_analysis_returned [OF assms(1,3)] obtain sql explanation r w2 where
    run: "fst (execute_and_repair env q sql r w2) = Inr res"
    and r: "r = (new_results env q)\<lparr>sql_query := Some sql, sql_explanation := Some explanation,
                sql_file := Some (sql_path (strftime_now env))\<rparr>
            \<or> r = (new_results env q)\<lparr>sql_query := Some sql, sql_explanation := Some explanation\<rparr>"
    by blast
  from execute_and_repair_outcome(3) [OF sql_path_not_output, of r env q sql w2] run
  have "repaired r (Inr res)" by simp
  with assms(2) have "(\<exists>e. res = r\<lparr>error := Some e\<rparr>)
      \<or> (\<exists>sql' e. res = r\<lparr>sql_query := Some sql', error := Some e\<rparr>)"
    unfolding repaired_def finished_def by auto
  with r show ?thesis by (auto simp: new_results_def)
qed

text \<open>
  Claim C8 does not hold when the generation fails: the error of \<open>generate_sql\<close> is
  printed and not recorded, so the returned dictionary has the question and no error.
\<close>

theorem generation_failure_drops_error:
  "fst (run_analysis (sample_env quota_exhausted no_database) ''top 5 products by revenue''
          True fresh) =
     Inr \<lparr>success = False, query = ''top 5 products by revenue'',
          timestamp = ''2024-02-08_10-30-00'', sql_query = None, sql_explanation = None,
          sql_file = None, error = None, row_count = None, dataframe = None,
          eda_results = None, executive_summary = None, report_file = None\<rparr>
   \<and> q_error (fst (generate_sql (sample_env quota_exhausted no_database)
                     ''top 5 products by revenue'' fresh))
       = Some ''Rate limit exceeded. Try again in a few minutes or enable billing for higher quota.''"
proof -
  let ?E = "sample_env quota_exhausted no_database"
  have "generate_content ?E (trace fresh) model_id (SqlPrompt ''top 5 products by revenue'')
          = Inl ''429 RESOURCE_EXHAUSTED''"
    by (simp add: sample_env_def quota_exhausted_def)
  from generate_sql_raised [OF this]
  have g: "fst (generate_sql ?E ''top 5 products by revenue'' fresh) =
     \<lparr>q_sql = None, q_explanation = None, q_success = False,
      q_error = Some ''Rate limit exceeded. Try again in a few minutes or enable billing for higher quota.'',
      q_error_type = Some ''rate_limit''\<rparr>"
    by (simp add: is_rate_limit_def)
  have "strftime_now ?E = ''2024-02-08_10-30-00''" by (simp add: sample_env_def)
  with g show ?thesis
    by (simp add: run_analysis_unfold new_results_def)
qed


end
